theory Spec2Isabelle
  imports Main
begin

section \<open>Values exchanged with the subprocess\<close>

text \<open>
  A JavaScript string is modelled as the list of its code units; the model covers the
  code units below 256, which is what \<^typ>\<open>char\<close> holds. What \<open>JSON.parse\<close>
  returns is a value of \<open>json\<close>; an object is the list of its own properties, keys
  distinct, in insertion order. Numbers are kept as integers: the only numbers the bridge
  computes with are the line offsets and limits of read invocations.
\<close>

datatype json =
    JNull
  | JBool bool
  | JNum int
  | JStr string
  | JArr "json list"
  | JObj "(string \<times> json) list"

datatype error =
    SessionNotFound
  | NotRunning
  | AlreadyRunning
  | StreamsUnavailable
  | TypeError

definition nl :: char where
  "nl = CHR 0x0A"

text \<open>
  \<open>s.split(sep)\<close> for a separator of one character: the segments between the
  separators, always at least one (\<open>"".split("/")\<close> is \<open>[""]\<close>).
\<close>

fun split_on :: "char \<Rightarrow> string \<Rightarrow> string list" where
  "split_on sep [] = [[]]"
| "split_on sep (c # cs) =
     (if c = sep then [] # split_on sep cs
      else (c # hd (split_on sep cs)) # tl (split_on sep cs))"

text \<open>
  \<open>String.prototype.trim\<close> strips white space and line terminators from both ends;
  below 256 these are TAB, LF, VT, FF, CR, SPACE and NBSP.
\<close>

definition is_js_space :: "char \<Rightarrow> bool" where
  "is_js_space c \<longleftrightarrow>
     c \<in> set [CHR 0x09, CHR 0x0A, CHR 0x0B, CHR 0x0C, CHR 0x0D, CHR 0x20, CHR 0xA0]"

definition trim :: "string \<Rightarrow> string" where
  "trim s = rev (dropWhile is_js_space (rev (dropWhile is_js_space s)))"

section \<open>cursor-agent.ts: the subprocess wrapper\<close>

datatype signal = SIGTERM | SIGKILL

text \<open>
  The \<open>ChildProcess\<close> handle as far as the wrapper uses it: whether its three
  streams exist and what has been written to its standard input.
\<close>

record child_process =
  has_stdout :: bool
  has_stdin :: bool
  has_stderr :: bool
  stdin_written :: "string list"

record cursor_agent_options =
  cwd :: "string option"
  model :: "string option"
  outputFormat :: "string option"
  opt_sessionId :: "string option"

record cursor_agent =
  process :: "child_process option"
  buffer :: string
  isRunning :: bool
  options :: cursor_agent_options

text \<open>The message \<open>sendMessage\<close> takes, as \<open>promptToCursorAgent\<close> builds it.\<close>

record cursor_agent_message =
  msg_type :: string
  content :: string
  sessionId :: "string option"

definition new_CursorAgent :: "cursor_agent_options \<Rightarrow> cursor_agent" where
  "new_CursorAgent opts =
     \<lparr>process = None, buffer = [], isRunning = False, options = opts\<rparr>"

text \<open>An optional string is truthy when it is present and not empty.\<close>

definition truthy :: "string option \<Rightarrow> bool" where
  "truthy v = (case v of None \<Rightarrow> False | Some s \<Rightarrow> s \<noteq> [])"

definition start_args :: "cursor_agent_options \<Rightarrow> string list" where
  "start_args opts =
     (if truthy (model opts) then [''--model'', the (model opts)] else []) @
     (if truthy (outputFormat opts) then [''--output-format'', the (outputFormat opts)] else []) @
     (if truthy (opt_sessionId opts) then [''--resume'', the (opt_sessionId opts)] else []) @
     [''-p'', '''']"

text \<open>
  \<open>start\<close>: \<open>spawned\<close> is the handle \<open>spawn("cursor-agent", args, ...)\<close> returns.
  When a stream is missing the handle is kept and the error is raised before the running
  flag is set; the model returns the agent with the error.
\<close>

definition start :: "child_process \<Rightarrow> cursor_agent \<Rightarrow> (error + unit) \<times> cursor_agent" where
  "start spawned a =
     (if isRunning a then (Inl AlreadyRunning, a)
      else
        let a1 = a\<lparr>process := Some spawned\<rparr> in
        if \<not> has_stdout spawned \<or> \<not> has_stdin spawned \<or> \<not> has_stderr spawned
        then (Inl StreamsUnavailable, a1)
        else (Inr (), a1\<lparr>isRunning := True\<rparr>))"

subsection \<open>processOutput: line framing and message classification\<close>

text \<open>
  The body of the \<open>try\<close>/\<open>catch\<close> of \<open>processOutput\<close>. \<open>parse\<close> stands for
  \<open>JSON.parse\<close>, which belongs to the runtime: \<open>None\<close> is its \<open>SyntaxError\<close>.
\<close>

definition classify :: "(string \<Rightarrow> json option) \<Rightarrow> string \<Rightarrow> json" where
  "classify parse line =
     (case parse line of
        Some parsed \<Rightarrow> parsed
      | None \<Rightarrow> JObj [(''type'', JStr ''assistant''), (''content'', JStr line)])"

text \<open>The loop over the complete lines; the result is the list of emitted messages.\<close>

fun emit_lines :: "(string \<Rightarrow> json option) \<Rightarrow> string list \<Rightarrow> json list" where
  "emit_lines parse [] = []"
| "emit_lines parse (line # rest) =
     (if trim line \<noteq> [] then classify parse line # emit_lines parse rest
      else emit_lines parse rest)"

definition processOutput ::
  "(string \<Rightarrow> json option) \<Rightarrow> cursor_agent \<Rightarrow> cursor_agent \<times> json list" where
  "processOutput parse a =
     (let lines = split_on nl (buffer a) in
      (a\<lparr>buffer := last lines\<rparr>, emit_lines parse (butlast lines)))"

text \<open>The \<open>data\<close> listener of the subprocess's standard output; \<open>data\<close> is the decoded chunk.\<close>

definition on_stdout_data ::
  "(string \<Rightarrow> json option) \<Rightarrow> string \<Rightarrow> cursor_agent \<Rightarrow> cursor_agent \<times> json list" where
  "on_stdout_data parse data a = processOutput parse (a\<lparr>buffer := buffer a @ data\<rparr>)"

text \<open>A sequence of chunks, delivered in order; the messages are collected in order.\<close>

fun feed ::
  "(string \<Rightarrow> json option) \<Rightarrow> string list \<Rightarrow> cursor_agent \<Rightarrow> cursor_agent \<times> json list" where
  "feed parse [] a = (a, [])"
| "feed parse (data # rest) a =
     (let (a1, out1) = on_stdout_data parse data a;
          (a2, out2) = feed parse rest a1
      in (a2, out1 @ out2))"

text \<open>The text of \<open>ls\<close>, each line followed by its terminator.\<close>

definition line_terminated :: "string list \<Rightarrow> string" where
  "line_terminated ls = concat (map (\<lambda>l. l @ [nl]) ls)"

text \<open>
  A decoder that accepts the three literals of JSON and nothing else, for concrete runs;
  the theorems hold for every decoder.
\<close>

definition parse_literal :: "string \<Rightarrow> json option" where
  "parse_literal s =
     (if s = ''null'' then Some JNull
      else if s = ''true'' then Some (JBool True)
      else if s = ''false'' then Some (JBool False)
      else None)"

subsection \<open>sendMessage, stop, isAlive\<close>

definition sendMessage :: "cursor_agent_message \<Rightarrow> cursor_agent \<Rightarrow> error + cursor_agent" where
  "sendMessage message a =
     (case process a of
        None \<Rightarrow> Inl NotRunning
      | Some p \<Rightarrow>
          if \<not> isRunning a \<or> \<not> has_stdin p then Inl NotRunning
          else Inr (a\<lparr>process :=
                 Some (p\<lparr>stdin_written := stdin_written p @ [content message @ [nl]]\<rparr>)\<rparr>))"

definition isAlive :: "cursor_agent \<Rightarrow> bool" where
  "isAlive a \<longleftrightarrow> isRunning a \<and> process a \<noteq> None"

text \<open>
  \<open>stop\<close> sends SIGTERM and then waits for whichever comes first: the \<open>exit\<close> event
  of the subprocess, or the timer of 5000 ms, whose callback sends SIGKILL and resolves at
  once. What the subprocess does is the environment's: \<open>exit_after\<close> is the delay in
  milliseconds between SIGTERM and the \<open>exit\<close> event, \<open>None\<close> when the subprocess
  does not exit on SIGTERM; the event wins the race when it comes before the timer is due.
  The report says what an observer of the call sees: the signals sent in order, after
  how many milliseconds the promise resolved, and whether the \<open>exit\<close> event had come
  by then.
\<close>

definition grace_ms :: nat where
  "grace_ms = 5000"

record stop_report =
  sent :: "signal list"
  resolved_after :: nat
  exit_seen :: bool

definition returned_at_once :: stop_report where
  "returned_at_once = \<lparr>sent = [], resolved_after = 0, exit_seen = False\<rparr>"

definition exits_in_time :: "nat option \<Rightarrow> bool" where
  "exits_in_time exit_after = (case exit_after of None \<Rightarrow> False | Some d \<Rightarrow> d < grace_ms)"

definition stop :: "nat option \<Rightarrow> cursor_agent \<Rightarrow> cursor_agent \<times> stop_report" where
  "stop exit_after a =
     (if \<not> isRunning a \<or> process a = None then (a, returned_at_once)
      else if exits_in_time exit_after
      then (a\<lparr>process := None, isRunning := False\<rparr>,
            \<lparr>sent = [SIGTERM], resolved_after = the exit_after, exit_seen = True\<rparr>)
      else (a\<lparr>process := None, isRunning := False\<rparr>,
            \<lparr>sent = [SIGTERM, SIGKILL], resolved_after = grace_ms, exit_seen = False\<rparr>))"

section \<open>acp-agent.ts: the session registry and the dispatch\<close>

record session =
  cursorAgent :: cursor_agent
  cancelled :: bool
  messages :: "cursor_agent_message list"

text \<open>
  The argument of \<open>client.sessionUpdate\<close> as \<open>handleCursorAgentMessage\<close> builds
  it: \<open>sessionUpdate\<close> is the tag of the update, \<open>content_type\<close> the type of its
  content block and \<open>chunk_text\<close> the value of \<open>message.content\<close>, \<open>None\<close> when that is
  \<open>undefined\<close>.
\<close>

record session_notification =
  n_sessionId :: string
  sessionUpdate :: string
  content_type :: string
  chunk_text :: "json option"

text \<open>
  The agent: the registry of sessions, the calls made to \<open>client.sessionUpdate\<close> so
  far, oldest first, and the \<open>cancelled\<close> properties that \<open>prompt\<close> and \<open>cancel\<close>
  have written onto objects that are not sessions (see \<open>registry_get\<close>), under the name
  by which the object was reached.
\<close>

record acp_agent =
  sessions :: "string \<rightharpoonup> session"
  client_updates :: "session_notification list"
  inherited_cancelled :: "string \<rightharpoonup> bool"

definition new_CursorAcpAgent :: acp_agent where
  "new_CursorAcpAgent =
     \<lparr>sessions = Map.empty, client_updates = [], inherited_cancelled = Map.empty\<rparr>"

text \<open>
  The registry is a plain object (\<open>this.sessions = {}\<close>), so \<open>this.sessions[id]\<close>
  finds more than the sessions stored in it: under the names of the members of
  \<open>Object.prototype\<close> it finds what the object inherits, a function or, under
  \<open>__proto__\<close>, \<open>Object.prototype\<close> itself.
\<close>

definition object_prototype_members :: "string list" where
  "object_prototype_members =
     [''constructor'', ''__proto__'', ''hasOwnProperty'', ''isPrototypeOf'',
      ''propertyIsEnumerable'', ''toLocaleString'', ''toString'', ''valueOf'',
      ''__defineGetter__'', ''__defineSetter__'', ''__lookupGetter__'', ''__lookupSetter__'']"

text \<open>
  What \<open>this.sessions[id]\<close> evaluates to: a session stored under the id; or the
  inherited member of that name; or, under the name \<open>cancelled\<close>, the boolean that a
  call with the id \<open>__proto__\<close> has written onto \<open>Object.prototype\<close>; or
  \<open>undefined\<close>. A stored session shadows what is inherited.
\<close>

datatype registry_value =
    OwnSession session
  | InheritedMember string
  | Primitive bool
  | Undefined

definition registry_get :: "acp_agent \<Rightarrow> string \<Rightarrow> registry_value" where
  "registry_get st sid =
     (case sessions st sid of
        Some session \<Rightarrow> OwnSession session
      | None \<Rightarrow>
          if sid \<in> set object_prototype_members then InheritedMember sid
          else if sid = ''cancelled'' then
            (case inherited_cancelled st ''__proto__'' of
               Some b \<Rightarrow> Primitive b
             | None \<Rightarrow> Undefined)
          else Undefined)"

text \<open>
  \<open>session.cancelled\<close> read on the inherited member \<open>k\<close>: the property written onto
  the member itself, else the one written onto \<open>Object.prototype\<close>, which every member
  inherits from, else \<open>undefined\<close>, which is falsy.
\<close>

definition member_cancelled :: "acp_agent \<Rightarrow> string \<Rightarrow> bool" where
  "member_cancelled st k =
     (case inherited_cancelled st k of
        Some b \<Rightarrow> b
      | None \<Rightarrow> (case inherited_cancelled st ''__proto__'' of Some b \<Rightarrow> b | None \<Rightarrow> False))"

text \<open>\<open>!this.sessions[id]\<close>: nothing is found under the id, or the boolean \<open>false\<close>.\<close>

definition resolves_nothing :: "acp_agent \<Rightarrow> string \<Rightarrow> bool" where
  "resolves_nothing st sid \<longleftrightarrow>
     (case registry_get st sid of
        Undefined \<Rightarrow> True
      | Primitive b \<Rightarrow> \<not> b
      | _ \<Rightarrow> False)"

text \<open>
  \<open>newSession\<close>: \<open>sid\<close> is what \<open>uuidv7()\<close> returns, 36 characters of hexadecimal
  digits and dashes, and \<open>spawned\<close> the handle of the subprocess. The session is stored
  only when \<open>start\<close> has succeeded.
\<close>

definition newSession ::
  "string \<Rightarrow> string \<Rightarrow> child_process \<Rightarrow> acp_agent \<Rightarrow> error + (string \<times> acp_agent)" where
  "newSession sid dir spawned st =
     (let agent = new_CursorAgent
            \<lparr>cwd = Some dir, model = None, outputFormat = Some ''json'', opt_sessionId = None\<rparr>
      in case start spawned agent of
           (Inl e, _) \<Rightarrow> Inl e
         | (Inr _, agent1) \<Rightarrow>
             Inr (sid, st\<lparr>sessions := (sessions st)
                    (sid \<mapsto> \<lparr>cursorAgent = agent1, cancelled = False, messages = []\<rparr>)\<rparr>))"

text \<open>
  \<open>message.content\<close> on a decoded value: reading a property of \<open>null\<close> raises a
  \<open>TypeError\<close>, an object gives its own property or \<open>undefined\<close>, and an array, a
  string, a number and a boolean have no property of that name.
\<close>

fun message_content :: "json \<Rightarrow> error + json option" where
  "message_content JNull = Inl TypeError"
| "message_content (JObj props) = Inr (map_of props ''content'')"
| "message_content _ = Inr None"

text \<open>The notification \<open>handleCursorAgentMessage\<close> builds, sent to the client.\<close>

definition forward :: "string \<Rightarrow> json \<Rightarrow> acp_agent \<Rightarrow> error + acp_agent" where
  "forward sid message st =
     (case message_content message of
        Inl e \<Rightarrow> Inl e
      | Inr t \<Rightarrow>
          Inr (st\<lparr>client_updates := client_updates st @
            [\<lparr>n_sessionId = sid, sessionUpdate = ''agent_message_chunk'',
              content_type = ''text'', chunk_text = t\<rparr>]\<rparr>))"

text \<open>
  \<open>handleCursorAgentMessage\<close> returns when \<open>!session || session.cancelled\<close>. On the
  boolean \<open>true\<close> found under the name \<open>cancelled\<close> the property read is the inherited
  one, which is that same \<open>true\<close>.
\<close>

definition handleCursorAgentMessage :: "string \<Rightarrow> json \<Rightarrow> acp_agent \<Rightarrow> error + acp_agent" where
  "handleCursorAgentMessage sid message st =
     (case registry_get st sid of
        Undefined \<Rightarrow> Inr st
      | Primitive b \<Rightarrow> Inr st
      | OwnSession session \<Rightarrow>
          if cancelled session then Inr st else forward sid message st
      | InheritedMember k \<Rightarrow>
          if member_cancelled st k then Inr st else forward sid message st)"

subsection \<open>promptToCursorAgent\<close>

text \<open>
  The blocks of a prompt: text, a resource link (its uri), an embedded resource (its uri,
  and its text when it has one), an image (data, mime type, uri) and any other block.
\<close>

datatype content_block =
    Text string
  | ResourceLink string
  | Resource string "string option"
  | Image string string "string option"
  | OtherBlock

record prompt_request =
  p_sessionId :: string
  p_prompt :: "content_block list"

definition starts_with :: "string \<Rightarrow> string \<Rightarrow> bool" where
  "starts_with pre s \<longleftrightarrow> take (length pre) s = pre"

text \<open>\<open>a || b\<close> on strings: the empty string is falsy.\<close>

definition or_else :: "string \<Rightarrow> string \<Rightarrow> string" where
  "or_else a b = (if a = [] then b else a)"

definition formatUriAsLink :: "string \<Rightarrow> string" where
  "formatUriAsLink uri =
     (if starts_with ''file://'' uri then
        let path = drop 7 uri;
            name = or_else (last (split_on CHR ''/'' path)) path
        in ''[@'' @ name @ ''](''  @ uri @ '')''
      else if starts_with ''zed://'' uri then
        let parts = split_on CHR ''/'' uri;
            name = or_else (last parts) uri
        in ''[@'' @ name @ ''](''  @ uri @ '')''
      else uri)"

fun render_block :: "content_block \<Rightarrow> string" where
  "render_block (Text t) = t"
| "render_block (ResourceLink uri) = formatUriAsLink uri"
| "render_block (Resource uri None) = []"
| "render_block (Resource uri (Some t)) =
     formatUriAsLink uri @
     [nl] @ ''<context ref='' @ [CHR 0x22] @ uri @ [CHR 0x22] @ ''>'' @ [nl] @ t @ [nl] @
     ''</context>''"
| "render_block (Image data mime uri) =
     (if data \<noteq> [] then [nl] @ ''[Image: '' @ mime @ '']'' @ [nl]
      else if truthy uri then [nl] @ ''[Image: '' @ the uri @ '']'' @ [nl]
      else [])"
| "render_block OtherBlock = []"

definition promptToCursorAgent :: "prompt_request \<Rightarrow> cursor_agent_message" where
  "promptToCursorAgent request =
     \<lparr>msg_type = ''user'',
      content = trim (concat (map render_block (p_prompt request))),
      sessionId = Some (p_sessionId request)\<rparr>"

subsection \<open>prompt and cancel\<close>

datatype stop_reason = end_turn | refusal

text \<open>
  \<open>prompt\<close>: the lookup and its \<open>throw\<close> stand before the \<open>try\<close>, so an id under
  which nothing is found raises; the flag is cleared before the \<open>try\<close>, and whatever is
  thrown inside the \<open>try\<close> becomes the refusal. Under the name of an inherited member
  the lookup finds an object that is no session: the flag is written onto it, and
  \<open>session.cursorAgent\<close> is \<open>undefined\<close>, so the call of \<open>sendMessage\<close> raises a
  \<open>TypeError\<close> inside the \<open>try\<close>. On the boolean \<open>true\<close> the assignment of the flag
  raises a \<open>TypeError\<close> before the \<open>try\<close> (the module is in strict mode).
\<close>

definition prompt :: "prompt_request \<Rightarrow> acp_agent \<Rightarrow> error + (stop_reason \<times> acp_agent)" where
  "prompt params st =
     (case registry_get st (p_sessionId params) of
        Undefined \<Rightarrow> Inl SessionNotFound
      | Primitive b \<Rightarrow> if b then Inl TypeError else Inl SessionNotFound
      | InheritedMember k \<Rightarrow>
          Inr (refusal, st\<lparr>inherited_cancelled := (inherited_cancelled st)(k \<mapsto> False)\<rparr>)
      | OwnSession session \<Rightarrow>
          let session1 = session\<lparr>cancelled := False\<rparr>;
              message = promptToCursorAgent params
          in case sendMessage message (cursorAgent session1) of
               Inl e \<Rightarrow>
                 Inr (refusal, st\<lparr>sessions := (sessions st)(p_sessionId params \<mapsto> session1)\<rparr>)
             | Inr agent1 \<Rightarrow>
                 Inr (end_turn, st\<lparr>sessions := (sessions st)(p_sessionId params \<mapsto>
                        session1\<lparr>cursorAgent := agent1,
                                 messages := messages session1 @ [message]\<rparr>)\<rparr>))"

text \<open>
  \<open>cancel\<close>: the same lookup; under the name of an inherited member the flag is
  written onto the member and the call resolves.
\<close>

definition cancel :: "string \<Rightarrow> acp_agent \<Rightarrow> error + acp_agent" where
  "cancel sid st =
     (case registry_get st sid of
        Undefined \<Rightarrow> Inl SessionNotFound
      | Primitive b \<Rightarrow> if b then Inl TypeError else Inl SessionNotFound
      | InheritedMember k \<Rightarrow>
          Inr (st\<lparr>inherited_cancelled := (inherited_cancelled st)(k \<mapsto> True)\<rparr>)
      | OwnSession session \<Rightarrow>
          Inr (st\<lparr>sessions := (sessions st)(sid \<mapsto> session\<lparr>cancelled := True\<rparr>)\<rparr>))"

subsection \<open>Runs of the agent\<close>

text \<open>
  What can happen to an agent: the client's calls, a message event of a session's
  subprocess wrapper, and a chunk on the standard output of a session's subprocess. A call
  that raises leaves the state as it was; the rejection of the promise of
  \<open>handleCursorAgentMessage\<close> is not awaited by the listener and sends nothing.
\<close>

datatype event =
    NewSession string string child_process
  | Prompt prompt_request
  | Cancel string
  | AgentMessage string json
  | StdoutData string string

definition on_message :: "string \<Rightarrow> json \<Rightarrow> acp_agent \<Rightarrow> acp_agent" where
  "on_message sid message st =
     (case handleCursorAgentMessage sid message st of Inl e \<Rightarrow> st | Inr st1 \<Rightarrow> st1)"

definition on_session_stdout ::
  "(string \<Rightarrow> json option) \<Rightarrow> string \<Rightarrow> string \<Rightarrow> acp_agent \<Rightarrow> acp_agent" where
  "on_session_stdout parse sid data st =
     (case sessions st sid of
        None \<Rightarrow> st
      | Some session \<Rightarrow>
          let (agent1, emitted) = on_stdout_data parse data (cursorAgent session);
              st1 = st\<lparr>sessions := (sessions st)(sid \<mapsto> session\<lparr>cursorAgent := agent1\<rparr>)\<rparr>
          in fold (on_message sid) emitted st1)"

fun step :: "(string \<Rightarrow> json option) \<Rightarrow> event \<Rightarrow> acp_agent \<Rightarrow> acp_agent" where
  "step parse (NewSession sid dir spawned) st =
     (case newSession sid dir spawned st of Inl e \<Rightarrow> st | Inr (_, st1) \<Rightarrow> st1)"
| "step parse (Prompt params) st =
     (case prompt params st of Inl e \<Rightarrow> st | Inr (_, st1) \<Rightarrow> st1)"
| "step parse (Cancel sid) st =
     (case cancel sid st of Inl e \<Rightarrow> st | Inr st1 \<Rightarrow> st1)"
| "step parse (AgentMessage sid message) st = on_message sid message st"
| "step parse (StdoutData sid data) st = on_session_stdout parse sid data st"

definition run :: "(string \<Rightarrow> json option) \<Rightarrow> event list \<Rightarrow> acp_agent \<Rightarrow> acp_agent" where
  "run parse evs st = fold (step parse) evs st"

text \<open>The updates sent to the client for one session, oldest first.\<close>

definition updates_for :: "string \<Rightarrow> acp_agent \<Rightarrow> session_notification list" where
  "updates_for sid st = filter (\<lambda>n. n_sessionId n = sid) (client_updates st)"

text \<open>The events that reset a session's flag: a prompt on it, and its creation.\<close>

fun restarts :: "string \<Rightarrow> event \<Rightarrow> bool" where
  "restarts sid (Prompt params) = (p_sessionId params = sid)"
| "restarts sid (NewSession sid1 dir spawned) = (sid1 = sid)"
| "restarts sid _ = False"

text \<open>
  A record is tool-shaped when it is an object whose \<open>type\<close> is \<open>tool_use\<close>, the
  shape of the entries of \<open>ToolUseCache\<close>.
\<close>

fun tool_shaped :: "json \<Rightarrow> bool" where
  "tool_shaped (JObj props) = (map_of props ''type'' = Some (JStr ''tool_use''))"
| "tool_shaped _ = False"

section \<open>tools.ts: the tool semantics mapper\<close>

text \<open>
  \<open>tools.ts\<close> is imported by the agent and exercised by
  \<open>tests/acp-agent.test.ts\<close>, but its text is not among the sources. The definitions
  of this section follow the specification (section 4.5) and are pinned to the expected
  values of the tests. A tool invocation is \<open>{id, name, input}\<close>, the input being an
  object of arbitrary properties.
\<close>

record tool_use =
  tu_id :: string
  tu_name :: string
  tu_input :: "(string \<times> json) list"

record location =
  loc_path :: string
  loc_line :: "int option"

text \<open>
  A content entry of a descriptor: a text block
  (\<open>{type: "content", content: {type: "text", text}}\<close>) or a diff
  (\<open>{type: "diff", path, oldText, newText}\<close>, \<open>oldText\<close> being \<open>null\<close> when unknown).
\<close>

datatype tool_content =
    ContentText string
  | Diff string "string option" string

record tool_info =
  kind :: string
  title :: string
  info_content :: "tool_content list"
  locations :: "location list option"

definition input_string :: "(string \<times> json) list \<Rightarrow> string \<Rightarrow> string option" where
  "input_string input k = (case map_of input k of Some (JStr v) \<Rightarrow> Some v | _ \<Rightarrow> None)"

definition input_number :: "(string \<times> json) list \<Rightarrow> string \<Rightarrow> int option" where
  "input_number input k = (case map_of input k of Some (JNum v) \<Rightarrow> Some v | _ \<Rightarrow> None)"

text \<open>The decimal text of an integer, as string concatenation with a number gives it.\<close>

fun show_nat :: "nat \<Rightarrow> string" where
  "show_nat n =
     (if n < 10 then [''0123456789'' ! n]
      else show_nat (n div 10) @ [''0123456789'' ! (n mod 10)])"

declare show_nat.simps [simp del]

definition show_int :: "int \<Rightarrow> string" where
  "show_int i = (if i < 0 then ''-'' @ show_nat (nat (- i)) else show_nat (nat i))"

subsection \<open>Reading a file\<close>

text \<open>
  Modelled from the spec: the range suffix of a read title, computed in the missing
  \<open>toolInfoFromToolUse\<close>. Offset and limit both given: the 1-indexed inclusive range
  \<open>offset + 1\<close> to \<open>offset + limit\<close>; only the limit: \<open>(1 - limit)\<close>; only the
  offset: \<open>(from line offset + 1)\<close>; neither: no suffix.
\<close>

definition read_range :: "int option \<Rightarrow> int option \<Rightarrow> string" where
  "read_range offset limit =
     (case (offset, limit) of
        (None, None) \<Rightarrow> []
      | (None, Some l) \<Rightarrow> '' (1 - '' @ show_int l @ '')''
      | (Some off, Some l) \<Rightarrow>
          '' ('' @ show_int (off + 1) @ '' - '' @ show_int (off + l) @ '')''
      | (Some off, None) \<Rightarrow> '' (from line '' @ show_int (off + 1) @ '')'')"

text \<open>
  Modelled from the spec: the location a read row of the missing
  \<open>toolInfoFromToolUse\<close> reports: the path and the raw 0-indexed offset, 0 when there
  is none.
\<close>

definition read_locations :: "string option \<Rightarrow> int option \<Rightarrow> location list" where
  "read_locations path offset =
     (case path of
        None \<Rightarrow> []
      | Some p \<Rightarrow> [\<lparr>loc_path = p, loc_line = Some (case offset of None \<Rightarrow> 0 | Some off \<Rightarrow> off)\<rparr>])"

text \<open>
  Modelled from the spec: the row of the built-in \<open>Read\<close> tool in the missing
  \<open>toolInfoFromToolUse\<close>. Its path is \<open>file_path\<close>; its title is the generic
  \<open>Read File\<close>, as the test expects of an invocation with a path, followed by the range
  suffix.
\<close>

definition read_info :: "(string \<times> json) list \<Rightarrow> tool_info" where
  "read_info input =
     \<lparr>kind = ''read'',
      title = ''Read File'' @
        read_range (input_number input ''offset'') (input_number input ''limit''),
      info_content = [],
      locations = Some (read_locations (input_string input ''file_path'')
                          (input_number input ''offset''))\<rparr>"

text \<open>
  Modelled from the spec: the row of the namespaced \<open>mcp__acp__read\<close> tool in the
  missing \<open>toolInfoFromToolUse\<close>. Its path is \<open>abs_path\<close>; its title includes the
  path when there is one, as the tests expect, followed by the range suffix.
\<close>

definition acp_read_info :: "(string \<times> json) list \<Rightarrow> tool_info" where
  "acp_read_info input =
     \<lparr>kind = ''read'',
      title = ''Read '' @
        (case input_string input ''abs_path'' of None \<Rightarrow> ''File'' | Some p \<Rightarrow> p) @
        read_range (input_number input ''offset'') (input_number input ''limit''),
      info_content = [],
      locations = Some (read_locations (input_string input ''abs_path'')
                          (input_number input ''offset''))\<rparr>"

subsection \<open>Editing a file in several steps\<close>

record edit_op =
  old_string :: string
  new_string :: string
  replace_all :: bool

text \<open>
  Modelled from the spec: the text operations the multi-edit of the missing
  \<open>toolInfoFromToolUse\<close> needs. First, the index at which the first occurrence of
  \<open>pat\<close> in \<open>s\<close> begins.
\<close>

fun index_of :: "string \<Rightarrow> string \<Rightarrow> nat option" where
  "index_of pat [] = (if pat = [] then Some 0 else None)"
| "index_of pat (c # cs) =
     (if starts_with pat (c # cs) then Some 0
      else map_option Suc (index_of pat cs))"

text \<open>
  Modelled from the spec: the 0-indexed line on which index \<open>i\<close> of \<open>s\<close> lies, the
  number of newlines before it.
\<close>

definition line_at :: "string \<Rightarrow> nat \<Rightarrow> nat" where
  "line_at s i = length (filter (\<lambda>c. c = nl) (take i s))"

text \<open>
  Modelled from the spec: the replacement of the occurrence at index \<open>i\<close>, and of every
  occurrence, found from left to right without overlap.
\<close>

definition replace_first :: "string \<Rightarrow> string \<Rightarrow> string \<Rightarrow> nat \<Rightarrow> string" where
  "replace_first pat rep s i = take i s @ rep @ drop (i + length pat) s"

function replace_every :: "string \<Rightarrow> string \<Rightarrow> string \<Rightarrow> string" where
  "replace_every pat rep s =
     (if pat = [] \<or> s = [] then s
      else if starts_with pat s then rep @ replace_every pat rep (drop (length pat) s)
      else hd s # replace_every pat rep (tl s))"
  by pat_completeness auto
termination
  by (relation "measure (\<lambda>(pat, rep, s). length s)") auto

declare replace_every.simps [simp del]

text \<open>
  Modelled from the spec: one operation of a multi-edit, applied by the missing
  \<open>toolInfoFromToolUse\<close> to the text as it stands: the new text, and the line on which
  the first occurrence of the search text begins in the text the operation is applied
  to. The specification does not say what an operation does whose search text is empty or
  does not occur: there the model gives \<open>None\<close>.
\<close>

definition apply_edit :: "edit_op \<Rightarrow> string \<Rightarrow> (string \<times> nat) option" where
  "apply_edit ed s =
     (if old_string ed = [] then None
      else case index_of (old_string ed) s of
             None \<Rightarrow> None
           | Some i \<Rightarrow>
               Some (if replace_all ed then replace_every (old_string ed) (new_string ed) s
                     else replace_first (old_string ed) (new_string ed) s i,
                     line_at s i))"

text \<open>
  Modelled from the spec: the ordered list of operations of a multi-edit, applied one
  after the other by the missing \<open>toolInfoFromToolUse\<close>; the result is the final text
  and one line number for each operation.
\<close>

fun multi_edit :: "string \<Rightarrow> edit_op list \<Rightarrow> (string \<times> nat list) option" where
  "multi_edit s [] = Some (s, [])"
| "multi_edit s (ed # eds) =
     (case apply_edit ed s of
        None \<Rightarrow> None
      | Some (s1, ln) \<Rightarrow>
          (case multi_edit s1 eds of
             None \<Rightarrow> None
           | Some (s2, lns) \<Rightarrow> Some (s2, ln # lns)))"

text \<open>
  Modelled from the spec: the entries of the \<open>edits\<close> property of a multi-edit input,
  \<open>{old_string, new_string, replace_all?}\<close> as in the test.
\<close>

fun decode_edit :: "json \<Rightarrow> edit_op option" where
  "decode_edit (JObj props) =
     (case (input_string props ''old_string'', input_string props ''new_string'') of
        (Some old, Some new) \<Rightarrow>
          Some \<lparr>old_string = old, new_string = new,
                replace_all = (map_of props ''replace_all'' = Some (JBool True))\<rparr>
      | _ \<Rightarrow> None)"
| "decode_edit _ = None"

fun decode_edits :: "json list \<Rightarrow> edit_op list option" where
  "decode_edits [] = Some []"
| "decode_edits (j # js) =
     (case (decode_edit j, decode_edits js) of
        (Some ed, Some eds) \<Rightarrow> Some (ed # eds)
      | _ \<Rightarrow> None)"

text \<open>
  Modelled from the spec: the multi-edit row of the missing \<open>toolInfoFromToolUse\<close>,
  for a path whose text is cached: the operations are applied to the cached text, the
  descriptor carries one diff from the cached text to the final text and one location for
  each operation. Where the specification leaves the descriptor open (no cached text, an
  operation that cannot be applied) the model gives \<open>None\<close>.
\<close>

definition multi_edit_info ::
  "(string \<rightharpoonup> string) \<Rightarrow> string \<Rightarrow> edit_op list \<Rightarrow> tool_info option" where
  "multi_edit_info fileCache path eds =
     (case fileCache path of
        None \<Rightarrow> None
      | Some original \<Rightarrow>
          (case multi_edit original eds of
             None \<Rightarrow> None
           | Some (final, lns) \<Rightarrow>
               Some \<lparr>kind = ''edit'',
                     title = ''Edit '' @ path,
                     info_content = [Diff path (Some original) final],
                     locations =
                       Some (map (\<lambda>ln. \<lparr>loc_path = path, loc_line = Some (int ln)\<rparr>) lns)\<rparr>))"

text \<open>
  Modelled from the spec: the dispatch of the missing \<open>toolInfoFromToolUse\<close> on the
  tool's name, for the read tools and the multi-edit; the other rows of the table are
  outside the model (\<open>None\<close>).
\<close>

definition toolInfoFromToolUse :: "tool_use \<Rightarrow> (string \<rightharpoonup> string) \<Rightarrow> tool_info option" where
  "toolInfoFromToolUse toolUse fileCache =
     (if tu_name toolUse = ''Read'' then Some (read_info (tu_input toolUse))
      else if tu_name toolUse = ''mcp__acp__read'' then Some (acp_read_info (tu_input toolUse))
      else if tu_name toolUse = ''mcp__acp__multi-edit'' then
        (case (input_string (tu_input toolUse) ''file_path'',
               map_of (tu_input toolUse) ''edits'') of
           (Some path, Some (JArr js)) \<Rightarrow>
             (case decode_edits js of
                None \<Rightarrow> None
              | Some eds \<Rightarrow> multi_edit_info fileCache path eds)
         | _ \<Rightarrow> None)
      else None)"

text \<open>
  The text after a list of operations, the replacements alone: what the claim about the
  multi-edit compares the descriptor with.
\<close>

fun edited_text :: "string \<Rightarrow> edit_op list \<Rightarrow> string option" where
  "edited_text s [] = Some s"
| "edited_text s (ed # eds) =
     (case apply_edit ed s of
        None \<Rightarrow> None
      | Some (s1, _) \<Rightarrow> edited_text s1 eds)"

subsection \<open>Reconciling a tool result\<close>

text \<open>
  A tool result: its content blocks, text or other, the id of the invocation it answers,
  and the error flag, which may be absent.
\<close>

datatype result_block =
    ResultText string
  | ResultOther json

record tool_result =
  tr_content :: "result_block list"
  tool_use_id :: string
  is_error :: "bool option"

text \<open>The update of a reported tool call; \<open>None\<close> is the update with no content, \<open>{}\<close>.\<close>

record tool_update =
  upd_content :: "tool_content list option"

fun result_texts :: "result_block list \<Rightarrow> string list" where
  "result_texts [] = []"
| "result_texts (ResultText t # bs) = t # result_texts bs"
| "result_texts (ResultOther j # bs) = result_texts bs"

text \<open>
  Modelled from the spec: the missing \<open>toolUpdateFromToolResult\<close>. A result whose
  error flag is not set gives the empty update; a result whose error flag is set gives an
  update that carries the result's text content, one text block for each.
\<close>

definition toolUpdateFromToolResult :: "tool_result \<Rightarrow> tool_use \<Rightarrow> tool_update" where
  "toolUpdateFromToolResult toolResult toolUse =
     (if is_error toolResult = Some True
      then \<lparr>upd_content = Some (map ContentText (result_texts (tr_content toolResult)))\<rparr>
      else \<lparr>upd_content = None\<rparr>)"

fun update_texts :: "tool_update \<Rightarrow> string list" where
  "update_texts u =
     (case upd_content u of
        None \<Rightarrow> []
      | Some cs \<Rightarrow> concat (map (\<lambda>c. case c of ContentText t \<Rightarrow> [t] | Diff _ _ _ \<Rightarrow> []) cs))"

section \<open>Concrete inputs\<close>

text \<open>A subprocess handle with its three streams, nothing written yet.\<close>

definition piped_child :: child_process where
  "piped_child = \<lparr>has_stdout = True, has_stdin = True, has_stderr = True, stdin_written = []\<rparr>"

text \<open>A wrapper that has not been started, and the same wrapper started on \<open>piped_child\<close>.\<close>

definition idle_agent :: cursor_agent where
  "idle_agent = new_CursorAgent
     \<lparr>cwd = Some ''/work'', model = None, outputFormat = Some ''json'', opt_sessionId = None\<rparr>"

definition running_agent :: cursor_agent where
  "running_agent = snd (start piped_child idle_agent)"

text \<open>An agent with the one session \<open>s1\<close>.\<close>

definition one_session :: acp_agent where
  "one_session = run parse_literal [NewSession ''s1'' ''/work'' piped_child] new_CursorAcpAgent"

text \<open>A tool invocation record as the subprocess prints it, decoded.\<close>

definition bash_tool_use :: json where
  "bash_tool_use =
     JObj [(''type'', JStr ''tool_use''), (''id'', JStr ''toolu_01''), (''name'', JStr ''Bash''),
           (''input'', JObj [(''command'', JStr ''ls'')])]"

definition hello_prompt :: "string \<Rightarrow> prompt_request" where
  "hello_prompt sid = \<lparr>p_sessionId = sid, p_prompt = [Text ''Hello'']\<rparr>"

text \<open>The cached file and the two operations of the multi-edit test.\<close>

definition config_path :: string where
  "config_path = ''/Users/test/project/config.json''"

definition config_json :: string where
  \<open>config_json =
     ''{'' @ [nl] @
     ''    "version": 1,'' @ [nl] @
     ''    "filler": "filler",'' @ [nl] @
     ''    "enabled": false'' @ [nl] @
     ''}''\<close>

definition config_json_edited :: string where
  \<open>config_json_edited =
     ''{'' @ [nl] @
     ''    "version": 2,'' @ [nl] @
     ''    "filler": "filler",'' @ [nl] @
     ''    "enabled": true'' @ [nl] @
     ''}''\<close>

definition config_edits :: "edit_op list" where
  \<open>config_edits =
     [\<lparr>old_string = ''version": 1'', new_string = ''version": 2'', replace_all = False\<rparr>,
      \<lparr>old_string = ''enabled": false'', new_string = ''enabled": true'', replace_all = True\<rparr>]\<close>

text \<open>The invocation and the two results of the reconciliation tests.\<close>

definition edit_tool_use :: tool_use where
  "edit_tool_use =
     \<lparr>tu_id = ''toolu_01MNO345'', tu_name = ''mcp__acp__edit'',
      tu_input = [(''abs_path'', JStr ''/Users/test/project/test.txt''),
                  (''old_string'', JStr ''old''), (''new_string'', JStr ''new'')]\<rparr>"

definition ok_result :: tool_result where
  "ok_result =
     \<lparr>tr_content = [ResultText ''not valid json''], tool_use_id = ''test'',
      is_error = Some False\<rparr>"

definition failed_result :: tool_result where
  "failed_result =
     \<lparr>tr_content = [ResultText ''Failed to find `old_string`''], tool_use_id = ''test'',
      is_error = Some True\<rparr>"

text \<open>The multi-edit invocation of the test, as a decoded record.\<close>

definition config_tool_use :: tool_use where
  "config_tool_use =
     \<lparr>tu_id = ''toolu_01DEF456'', tu_name = ''mcp__acp__multi-edit'',
      tu_input =
        [(''file_path'', JStr config_path),
         (''edits'', JArr (map (\<lambda>ed. JObj [(''old_string'', JStr (old_string ed)),
                                            (''new_string'', JStr (new_string ed)),
                                            (''replace_all'', JBool (replace_all ed))])
                            config_edits))]\<rparr>"

text \<open>A read invocation of either tool, from the path, the offset and the limit.\<close>

definition read_input :: "string \<Rightarrow> string \<Rightarrow> int option \<Rightarrow> int option \<Rightarrow> (string \<times> json) list" where
  "read_input key path offset limit =
     [(key, JStr path)] @
     (case offset of None \<Rightarrow> [] | Some off \<Rightarrow> [(''offset'', JNum off)]) @
     (case limit of None \<Rightarrow> [] | Some l \<Rightarrow> [(''limit'', JNum l)])"

section \<open>Line framing\<close>

lemma split_on_nonempty: "split_on sep s \<noteq> []"
  by (induction s) auto

lemma split_on_no_sep: "sep \<notin> set l \<Longrightarrow> split_on sep l = [l]"
  by (induction l) auto

lemma split_on_line: "sep \<notin> set l \<Longrightarrow> split_on sep (l @ sep # r) = l # split_on sep r"
  by (induction l) auto

lemma split_on_append:
  "split_on sep (x @ c) =
     butlast (split_on sep x) @ split_on sep (last (split_on sep x) @ c)"
proof (induction x)
  case Nil
  show ?case by simp
next
  case (Cons c0 x)
  obtain h t where ht: "split_on sep x = h # t"
    using split_on_nonempty [of sep x] by (cases "split_on sep x") auto
  show ?case
  proof (cases "c0 = sep")
    case True
    with Cons show ?thesis by (simp add: split_on_nonempty)
  next
    case False
    with Cons ht show ?thesis
      by (cases t) (simp_all add: split_on_nonempty)
  qed
qed

lemma last_split_on_no_sep: "sep \<notin> set (last (split_on sep s))"
proof (induction s)
  case Nil
  show ?case by simp
next
  case (Cons c s)
  obtain h t where ht: "split_on sep s = h # t"
    using split_on_nonempty [of sep s] by (cases "split_on sep s") auto
  with Cons show ?case
    by (cases t) auto
qed

lemma last_split_on_append:
  "last (split_on sep (x @ c)) = last (split_on sep (last (split_on sep x) @ c))"
  by (subst split_on_append) (simp add: split_on_nonempty)

lemma butlast_split_on_append:
  "butlast (split_on sep (x @ c)) =
     butlast (split_on sep x) @ butlast (split_on sep (last (split_on sep x) @ c))"
  by (subst split_on_append) (simp add: split_on_nonempty butlast_append)

lemma split_on_lines:
  "\<forall>l \<in> set ls. nl \<notin> set l \<Longrightarrow> nl \<notin> set frag \<Longrightarrow>
   split_on nl (line_terminated ls @ frag) = ls @ [frag]"
  by (induction ls) (auto simp: line_terminated_def split_on_no_sep split_on_line)

lemma emit_lines_filter:
  "emit_lines parse ls = map (classify parse) (filter (\<lambda>l. trim l \<noteq> []) ls)"
  by (induction ls) auto

lemma emit_lines_append:
  "emit_lines parse (xs @ ys) = emit_lines parse xs @ emit_lines parse ys"
  by (simp add: emit_lines_filter)

lemma on_stdout_data_eq:
  "on_stdout_data parse d a =
     (a\<lparr>buffer := last (split_on nl (buffer a @ d))\<rparr>,
      emit_lines parse (butlast (split_on nl (buffer a @ d))))"
  by (simp add: on_stdout_data_def processOutput_def Let_def)

text \<open>
  Chunk boundaries do not matter: feeding the chunks one by one is processing their
  concatenation at once.
\<close>

lemma feed_concat:
  "nl \<notin> set (buffer a) \<Longrightarrow>
   feed parse chunks a =
     (a\<lparr>buffer := last (split_on nl (buffer a @ concat chunks))\<rparr>,
      emit_lines parse (butlast (split_on nl (buffer a @ concat chunks))))"
proof (induction chunks arbitrary: a)
  case Nil
  then show ?case by (simp add: split_on_no_sep)
next
  case (Cons d rest)
  let ?a1 = "a\<lparr>buffer := last (split_on nl (buffer a @ d))\<rparr>"
  have "feed parse (d # rest) a =
      (?a1\<lparr>buffer := last (split_on nl (buffer ?a1 @ concat rest))\<rparr>,
       emit_lines parse (butlast (split_on nl (buffer a @ d))) @
       emit_lines parse (butlast (split_on nl (buffer ?a1 @ concat rest))))"
    by (simp add: on_stdout_data_eq Cons.IH last_split_on_no_sep)
  also have "\<dots> =
      (a\<lparr>buffer := last (split_on nl (buffer a @ concat (d # rest)))\<rparr>,
       emit_lines parse (butlast (split_on nl (buffer a @ concat (d # rest)))))"
    using last_split_on_append [of nl "buffer a @ d" "concat rest"]
      butlast_split_on_append [of nl "buffer a @ d" "concat rest"]
    by (simp add: emit_lines_append)
  finally show ?case .
qed

text \<open>The buffer never holds a line terminator after a chunk has been processed.\<close>

lemma buffer_holds_no_newline: "nl \<notin> set (buffer (fst (on_stdout_data parse d a)))"
  by (simp add: on_stdout_data_eq last_split_on_no_sep)

text \<open>
  Claim C3, as the code has it: when the concatenation of the chunks is \<open>N\<close> lines,
  each followed by a newline, and then a fragment without newline, the framer starting
  from an empty buffer hands on, in order, exactly those of the \<open>N\<close> lines that are not
  blank (what \<open>trim\<close> leaves is not empty), each without its terminator and classified
  as it is, and keeps exactly the fragment in its buffer. Blank lines are discarded by the
  guard \<open>if (line.trim())\<close>.
\<close>

theorem framer_emits_nonblank_lines:
  assumes "\<forall>l \<in> set ls. nl \<notin> set l" and "nl \<notin> set frag"
    and "concat chunks = line_terminated ls @ frag" and "buffer a = []"
  shows "feed parse chunks a =
           (a\<lparr>buffer := frag\<rparr>, map (classify parse) (filter (\<lambda>l. trim l \<noteq> []) ls))"
proof -
  have "split_on nl (buffer a @ concat chunks) = ls @ [frag]"
    using assms by (simp add: split_on_lines)
  moreover have "nl \<notin> set (buffer a)"
    using assms(4) by simp
  ultimately show ?thesis
    by (simp add: feed_concat emit_lines_filter)
qed

text \<open>Two chunks that cut the text inside a run of newlines; the blank line is dropped.\<close>

theorem framer_emits_nonblank_lines_witness:
  "feed parse_literal [''a\<newline>'', ''\<newline>b\<newline>c''] idle_agent =
     (idle_agent\<lparr>buffer := ''c''\<rparr>,
      [JObj [(''type'', JStr ''assistant''), (''content'', JStr ''a'')],
       JObj [(''type'', JStr ''assistant''), (''content'', JStr ''b'')]])"
proof -
  have "feed parse_literal [''a\<newline>'', ''\<newline>b\<newline>c''] idle_agent =
     (idle_agent\<lparr>buffer := ''c''\<rparr>,
      map (classify parse_literal) (filter (\<lambda>l. trim l \<noteq> []) [''a'', '''', ''b'']))"
    by (rule framer_emits_nonblank_lines)
      (simp_all add: line_terminated_def nl_def idle_agent_def new_CursorAgent_def)
  then show ?thesis
    by (simp add: classify_def parse_literal_def trim_def is_js_space_def)
qed

text \<open>
  Claim C3 as stated asks for \<open>N\<close> emitted lines. The chunks below hold the three
  terminated lines \<open>a\<close>, the empty line and \<open>b\<close>, then the fragment \<open>c\<close>; two
  messages are emitted, not three.
\<close>

theorem framer_blank_line_counterexample:
  "concat [''a\<newline>'', ''\<newline>b\<newline>c''] = line_terminated [''a'', '''', ''b''] @ ''c'' \<and>
   buffer idle_agent = [] \<and>
   length (snd (feed parse_literal [''a\<newline>'', ''\<newline>b\<newline>c''] idle_agent)) = 2 \<and>
   length (snd (feed parse_literal [''a\<newline>'', ''\<newline>b\<newline>c''] idle_agent))
     \<noteq> length [''a'', '''', ''b'']"
  by (simp add: line_terminated_def nl_def idle_agent_def new_CursorAgent_def
      on_stdout_data_def processOutput_def trim_def is_js_space_def)

section \<open>Message classification\<close>

text \<open>
  Claim C4: a complete line that the framer hands on (a line without newline that is not
  blank, arriving terminated on an empty buffer) gives exactly one message: the decoded
  record, unmodified, when the line decodes, and otherwise the record of type
  \<open>assistant\<close> whose content is the raw line. No such line is dropped.
\<close>

theorem classifier_emits_record_or_fallback:
  assumes "nl \<notin> set line" and "trim line \<noteq> []" and "buffer a = []"
  shows "(\<forall>v. parse line = Some v \<longrightarrow> snd (on_stdout_data parse (line @ [nl]) a) = [v]) \<and>
         (parse line = None \<longrightarrow>
            snd (on_stdout_data parse (line @ [nl]) a) =
              [JObj [(''type'', JStr ''assistant''), (''content'', JStr line)]])"
proof -
  have "split_on nl (line @ [nl]) = [line, []]"
    using assms(1) by (simp add: split_on_line)
  then have "snd (on_stdout_data parse (line @ [nl]) a) = [classify parse line]"
    using assms(2,3) by (simp add: on_stdout_data_eq)
  then show ?thesis
    by (simp add: classify_def)
qed

text \<open>A line that decodes and a line that does not.\<close>

theorem classifier_emits_record_or_fallback_witness:
  "snd (on_stdout_data parse_literal ''null\<newline>'' idle_agent) = [JNull] \<and>
   snd (on_stdout_data parse_literal ''hello world\<newline>'' idle_agent) =
     [JObj [(''type'', JStr ''assistant''), (''content'', JStr ''hello world'')]]"
proof -
  have b: "buffer idle_agent = []"
    by (simp add: idle_agent_def new_CursorAgent_def)
  have "parse_literal ''null'' = Some JNull"
    by (simp add: parse_literal_def trim_def is_js_space_def)
  moreover have "parse_literal ''hello world'' = None"
    by (simp add: parse_literal_def trim_def is_js_space_def)
  moreover have "nl \<notin> set ''null''" "trim ''null'' \<noteq> []"
    "nl \<notin> set ''hello world''" "trim ''hello world'' \<noteq> []"
    by (simp_all add: nl_def trim_def is_js_space_def)
  ultimately show ?thesis
    using classifier_emits_record_or_fallback [of "''null''" idle_agent parse_literal]
      classifier_emits_record_or_fallback [of "''hello world''" idle_agent parse_literal] b
    by (simp add: nl_def)
qed

section \<open>Dispatch: what is forwarded, and when\<close>

lemma registry_get_own: "sessions st sid = Some s \<Longrightarrow> registry_get st sid = OwnSession s"
  by (simp add: registry_get_def)

lemma registry_get_member:
  "sessions st sid = None \<Longrightarrow> registry_get st sid = InheritedMember k \<longleftrightarrow>
     k = sid \<and> sid \<in> set object_prototype_members"
  by (auto simp: registry_get_def split: option.splits)

lemma forward_sessions:
  "forward sid m st = Inr st1 \<Longrightarrow>
   sessions st1 = sessions st \<and> inherited_cancelled st1 = inherited_cancelled st"
  by (auto simp: forward_def split: sum.splits)

lemma forward_other:
  "forward sid1 m st = Inr st1 \<Longrightarrow> sid1 \<noteq> sid \<Longrightarrow> updates_for sid st1 = updates_for sid st"
  by (auto simp: forward_def updates_for_def split: sum.splits)

lemma forward_chunks:
  "forward sid m st = Inr st1 \<Longrightarrow>
   \<forall>n \<in> set (client_updates st). sessionUpdate n = ''agent_message_chunk'' \<Longrightarrow>
   \<forall>n \<in> set (client_updates st1). sessionUpdate n = ''agent_message_chunk''"
  by (auto simp: forward_def split: sum.splits)

text \<open>A message event either leaves the agent as it is or forwards the message.\<close>

lemma on_message_cases:
  "on_message sid m st = st \<or> forward sid m st = Inr (on_message sid m st)"
  by (auto simp: on_message_def handleCursorAgentMessage_def
      split: registry_value.splits sum.splits)

lemma on_message_sessions: "sessions (on_message sid1 m st) = sessions st"
  using on_message_cases [of sid1 m st] forward_sessions [of sid1 m st] by auto

lemma on_message_inherited:
  "inherited_cancelled (on_message sid1 m st) = inherited_cancelled st"
  using on_message_cases [of sid1 m st] forward_sessions [of sid1 m st] by auto

lemma on_message_cancelled:
  "sessions st sid = Some s \<Longrightarrow> cancelled s \<Longrightarrow> on_message sid m st = st"
  by (simp add: on_message_def handleCursorAgentMessage_def registry_get_own)

lemma on_message_member_cancelled:
  "sessions st sid = None \<Longrightarrow> inherited_cancelled st sid = Some True \<Longrightarrow>
   on_message sid m st = st"
  by (auto simp: on_message_def handleCursorAgentMessage_def registry_get_def
      member_cancelled_def split: option.splits)

lemma on_message_other:
  "sid1 \<noteq> sid \<Longrightarrow> updates_for sid (on_message sid1 m st) = updates_for sid st"
  using on_message_cases [of sid1 m st] forward_other [of sid1 m st _ sid] by auto

lemma fold_on_message_sessions: "sessions (fold (on_message sid1) ms st) = sessions st"
  by (induction ms arbitrary: st) (simp_all add: on_message_sessions)

lemma fold_on_message_inherited:
  "inherited_cancelled (fold (on_message sid1) ms st) = inherited_cancelled st"
  by (induction ms arbitrary: st) (simp_all add: on_message_inherited)

lemma fold_on_message_cancelled:
  "sessions st sid = Some s \<Longrightarrow> cancelled s \<Longrightarrow> fold (on_message sid) ms st = st"
  by (induction ms) (simp_all add: on_message_cancelled)

lemma fold_on_message_other:
  "sid1 \<noteq> sid \<Longrightarrow> updates_for sid (fold (on_message sid1) ms st) = updates_for sid st"
  by (induction ms arbitrary: st) (simp_all add: on_message_other)

text \<open>What \<open>prompt\<close> and \<open>cancel\<close> change when they return.\<close>

lemma registry_get_cases:
  "(\<exists>s. sessions st sid = Some s \<and> registry_get st sid = OwnSession s) \<or>
   (sessions st sid = None \<and> registry_get st sid = InheritedMember sid) \<or>
   (sessions st sid = None \<and> (\<exists>b. registry_get st sid = Primitive b)) \<or>
   (sessions st sid = None \<and> registry_get st sid = Undefined)"
  by (cases "sessions st sid") (simp_all add: registry_get_def split: option.splits)

lemma prompt_effect:
  assumes "prompt params st = Inr (r, st1)"
  shows "client_updates st1 = client_updates st \<and>
         (\<forall>sid. sid \<noteq> p_sessionId params \<longrightarrow>
            sessions st1 sid = sessions st sid \<and>
            inherited_cancelled st1 sid = inherited_cancelled st sid) \<and>
         (sessions st (p_sessionId params) = None \<longrightarrow> sessions st1 = sessions st)"
proof -
  consider s where "sessions st (p_sessionId params) = Some s"
      "registry_get st (p_sessionId params) = OwnSession s"
    | "sessions st (p_sessionId params) = None"
      "registry_get st (p_sessionId params) = InheritedMember (p_sessionId params)"
    | b where "registry_get st (p_sessionId params) = Primitive b"
    | "registry_get st (p_sessionId params) = Undefined"
    using registry_get_cases [of st "p_sessionId params"] by auto
  then show ?thesis
  proof cases
    case 1
    with assms show ?thesis
      by (cases "sendMessage (promptToCursorAgent params) (cursorAgent s)")
        (auto simp: prompt_def Let_def)
  next
    case 2
    with assms show ?thesis by (auto simp: prompt_def)
  next
    case 3
    with assms show ?thesis by (simp add: prompt_def split: if_splits)
  next
    case 4
    with assms show ?thesis by (simp add: prompt_def)
  qed
qed

lemma cancel_effect:
  assumes "cancel sid1 st = Inr st1"
  shows "client_updates st1 = client_updates st \<and>
         (\<forall>sid. sid \<noteq> sid1 \<longrightarrow>
            sessions st1 sid = sessions st sid \<and>
            inherited_cancelled st1 sid = inherited_cancelled st sid) \<and>
         (\<forall>s. sessions st sid1 = Some s \<longrightarrow>
            sessions st1 sid1 = Some (s\<lparr>cancelled := True\<rparr>) \<and>
            inherited_cancelled st1 = inherited_cancelled st) \<and>
         (sessions st sid1 = None \<longrightarrow>
            sessions st1 = sessions st \<and> inherited_cancelled st1 sid1 = Some True)"
proof -
  consider s where "sessions st sid1 = Some s" "registry_get st sid1 = OwnSession s"
    | "sessions st sid1 = None" "registry_get st sid1 = InheritedMember sid1"
    | b where "registry_get st sid1 = Primitive b"
    | "registry_get st sid1 = Undefined"
    using registry_get_cases [of st sid1] by auto
  then show ?thesis
  proof cases
    case 1
    with assms show ?thesis by (auto simp: cancel_def)
  next
    case 2
    with assms show ?thesis by (auto simp: cancel_def)
  next
    case 3
    with assms show ?thesis by (simp add: cancel_def split: if_splits)
  next
    case 4
    with assms show ?thesis by (simp add: cancel_def)
  qed
qed

lemma newSession_effect:
  "newSession sid1 dir spawned st = Inr (r, st1) \<Longrightarrow>
   client_updates st1 = client_updates st \<and>
   inherited_cancelled st1 = inherited_cancelled st \<and>
   (\<forall>sid. sid \<noteq> sid1 \<longrightarrow> sessions st1 sid = sessions st sid)"
  by (auto simp: newSession_def Let_def split: prod.splits sum.splits)

text \<open>
  One event that is neither a prompt on the session nor its creation keeps a cancelled
  session cancelled and sends nothing for it.
\<close>

lemma step_keeps_cancelled:
  assumes "sessions st sid = Some s" and "cancelled s" and "\<not> restarts sid ev"
  shows "(\<exists>s1. sessions (step parse ev st) sid = Some s1 \<and> cancelled s1) \<and>
         updates_for sid (step parse ev st) = updates_for sid st"
proof (cases ev)
  case (NewSession sid1 dir spawned)
  with assms(3) have ne: "sid1 \<noteq> sid" by simp
  show ?thesis
  proof (cases "newSession sid1 dir spawned st")
    case (Inl e)
    with assms NewSession show ?thesis by simp
  next
    case (Inr res)
    obtain r st1 where res: "res = (r, st1)" by (cases res)
    from newSession_effect [of sid1 dir spawned st r st1] Inr res ne assms NewSession
    show ?thesis by (simp add: updates_for_def)
  qed
next
  case (Prompt params)
  with assms(3) have ne: "p_sessionId params \<noteq> sid" by simp
  show ?thesis
  proof (cases "prompt params st")
    case (Inl e)
    with assms Prompt show ?thesis by simp
  next
    case (Inr res)
    obtain r st1 where res: "res = (r, st1)" by (cases res)
    from prompt_effect [of params st r st1] Inr res ne assms Prompt
    show ?thesis by (simp add: updates_for_def)
  qed
next
  case (Cancel sid1)
  show ?thesis
  proof (cases "cancel sid1 st")
    case (Inl e)
    with assms Cancel show ?thesis by simp
  next
    case (Inr st1)
    from cancel_effect [OF Inr] assms Cancel Inr
    show ?thesis by (cases "sid1 = sid") (simp_all add: updates_for_def)
  qed
next
  case (AgentMessage sid1 m)
  show ?thesis
  proof (cases "sid1 = sid")
    case True
    with assms AgentMessage show ?thesis by (simp add: on_message_cancelled)
  next
    case False
    with assms AgentMessage show ?thesis
      by (simp add: on_message_sessions on_message_other)
  qed
next
  case (StdoutData sid1 d)
  show ?thesis
  proof (cases "sessions st sid1")
    case None
    with assms StdoutData show ?thesis by (simp add: on_session_stdout_def)
  next
    case (Some s1)
    obtain a1 ms where od: "on_stdout_data parse d (cursorAgent s1) = (a1, ms)"
      by (cases "on_stdout_data parse d (cursorAgent s1)") auto
    let ?st1 = "st\<lparr>sessions := (sessions st)(sid1 \<mapsto> s1\<lparr>cursorAgent := a1\<rparr>)\<rparr>"
    have run1: "step parse ev st = fold (on_message sid1) ms ?st1"
      using StdoutData Some od by (simp add: on_session_stdout_def)
    show ?thesis
    proof (cases "sid1 = sid")
      case True
      with Some assms have s1: "s1 = s" by simp
      have "sessions ?st1 sid = Some (s\<lparr>cursorAgent := a1\<rparr>)"
        using True s1 by simp
      moreover have "cancelled (s\<lparr>cursorAgent := a1\<rparr>)"
        using assms(2) by simp
      ultimately have "fold (on_message sid) ms ?st1 = ?st1"
        by (rule fold_on_message_cancelled)
      with run1 True s1 assms(2) show ?thesis
        by (simp add: updates_for_def)
    next
      case False
      have "updates_for sid ?st1 = updates_for sid st"
        by (simp add: updates_for_def)
      with False run1 assms show ?thesis
        by (simp add: fold_on_message_sessions fold_on_message_other)
    qed
  qed
qed

lemma run_keeps_cancelled:
  "sessions st sid = Some s \<Longrightarrow> cancelled s \<Longrightarrow> \<forall>ev \<in> set evs. \<not> restarts sid ev \<Longrightarrow>
   (\<exists>s1. sessions (run parse evs st) sid = Some s1 \<and> cancelled s1) \<and>
   updates_for sid (run parse evs st) = updates_for sid st"
proof (induction evs arbitrary: st s)
  case Nil
  then show ?case by (simp add: run_def)
next
  case (Cons ev evs)
  from Cons.prems have nr: "\<not> restarts sid ev" and rest: "\<forall>e \<in> set evs. \<not> restarts sid e"
    by simp_all
  from step_keeps_cancelled [OF Cons.prems(1,2) nr, of parse]
  obtain s1 where s1: "sessions (step parse ev st) sid = Some s1" "cancelled s1"
    and up: "updates_for sid (step parse ev st) = updates_for sid st"
    by blast
  from Cons.IH [OF s1 rest] up show ?case
    by (simp add: run_def)
qed

text \<open>
  The same for a flag that \<open>cancel\<close> has written onto an inherited member of the
  registry object: it stays, and nothing is sent under the member's name.
\<close>

lemma step_keeps_member_cancelled:
  assumes "sessions st sid = None" and "inherited_cancelled st sid = Some True"
    and "\<not> restarts sid ev"
  shows "sessions (step parse ev st) sid = None \<and>
         inherited_cancelled (step parse ev st) sid = Some True \<and>
         updates_for sid (step parse ev st) = updates_for sid st"
proof (cases ev)
  case (NewSession sid1 dir spawned)
  with assms(3) have ne: "sid1 \<noteq> sid" by simp
  show ?thesis
  proof (cases "newSession sid1 dir spawned st")
    case (Inl e)
    with assms NewSession show ?thesis by simp
  next
    case (Inr res)
    obtain r st1 where res: "res = (r, st1)" by (cases res)
    from newSession_effect [of sid1 dir spawned st r st1] Inr res ne assms NewSession
    show ?thesis by (simp add: updates_for_def)
  qed
next
  case (Prompt params)
  with assms(3) have ne: "p_sessionId params \<noteq> sid" by simp
  show ?thesis
  proof (cases "prompt params st")
    case (Inl e)
    with assms Prompt show ?thesis by simp
  next
    case (Inr res)
    obtain r st1 where res: "res = (r, st1)" by (cases res)
    from prompt_effect [of params st r st1] Inr res ne assms Prompt
    show ?thesis by (simp add: updates_for_def)
  qed
next
  case (Cancel sid1)
  show ?thesis
  proof (cases "cancel sid1 st")
    case (Inl e)
    with assms Cancel show ?thesis by simp
  next
    case (Inr st1)
    from cancel_effect [OF Inr] assms Cancel Inr
    show ?thesis by (cases "sid1 = sid") (simp_all add: updates_for_def)
  qed
next
  case (AgentMessage sid1 m)
  show ?thesis
  proof (cases "sid1 = sid")
    case True
    with assms AgentMessage show ?thesis by (simp add: on_message_member_cancelled)
  next
    case False
    with assms AgentMessage show ?thesis
      by (simp add: on_message_sessions on_message_inherited on_message_other)
  qed
next
  case (StdoutData sid1 d)
  show ?thesis
  proof (cases "sessions st sid1")
    case None
    with assms StdoutData show ?thesis by (simp add: on_session_stdout_def)
  next
    case (Some s1)
    with assms(1) have ne: "sid1 \<noteq> sid" by auto
    obtain a1 ms where od: "on_stdout_data parse d (cursorAgent s1) = (a1, ms)"
      by (cases "on_stdout_data parse d (cursorAgent s1)") auto
    let ?st1 = "st\<lparr>sessions := (sessions st)(sid1 \<mapsto> s1\<lparr>cursorAgent := a1\<rparr>)\<rparr>"
    have run1: "step parse ev st = fold (on_message sid1) ms ?st1"
      using StdoutData Some od by (simp add: on_session_stdout_def)
    have "updates_for sid ?st1 = updates_for sid st"
      by (simp add: updates_for_def)
    with ne run1 assms show ?thesis
      by (simp add: fold_on_message_sessions fold_on_message_inherited fold_on_message_other)
  qed
qed

lemma run_keeps_member_cancelled:
  "sessions st sid = None \<Longrightarrow> inherited_cancelled st sid = Some True \<Longrightarrow>
   \<forall>ev \<in> set evs. \<not> restarts sid ev \<Longrightarrow>
   sessions (run parse evs st) sid = None \<and>
   inherited_cancelled (run parse evs st) sid = Some True \<and>
   updates_for sid (run parse evs st) = updates_for sid st"
proof (induction evs arbitrary: st)
  case Nil
  then show ?case by (simp add: run_def)
next
  case (Cons ev evs)
  from Cons.prems have nr: "\<not> restarts sid ev" and rest: "\<forall>e \<in> set evs. \<not> restarts sid e"
    by simp_all
  from step_keeps_member_cancelled [OF Cons.prems(1,2) nr, of parse]
  have s1: "sessions (step parse ev st) sid = None"
    "inherited_cancelled (step parse ev st) sid = Some True"
    and up: "updates_for sid (step parse ev st) = updates_for sid st"
    by simp_all
  from Cons.IH [OF s1 rest] up show ?case
    by (simp add: run_def)
qed

text \<open>
  Claim C2, as the code has it: once \<open>cancel(id)\<close> has succeeded, the flag of the
  session stays set and no update is forwarded for that id, whatever messages and chunks
  arrive for any session and whatever calls are made, as long as no \<open>prompt\<close> is made on
  that session (and the id is not created anew); \<open>prompt\<close> clears the flag. This holds
  for a session of the registry, and also when the id is the name of an inherited member
  of the registry object, on which \<open>cancel\<close> succeeds as well: then the flag written
  onto the member stays set.
\<close>

theorem cancelled_until_next_prompt:
  assumes "cancel sid st = Inr st1" and "\<forall>ev \<in> set evs. \<not> restarts sid ev"
  shows "(\<forall>s. sessions st sid = Some s \<longrightarrow>
            (\<exists>s1. sessions (run parse evs st1) sid = Some s1 \<and> cancelled s1)) \<and>
         (sessions st sid = None \<longrightarrow>
            sessions (run parse evs st1) sid = None \<and>
            member_cancelled (run parse evs st1) sid) \<and>
         updates_for sid (run parse evs st1) = updates_for sid st1"
proof (cases "sessions st sid")
  case (Some s)
  with assms(1) have "sessions st1 sid = Some (s\<lparr>cancelled := True\<rparr>)"
    by (auto simp: cancel_def registry_get_def)
  moreover have "cancelled (s\<lparr>cancelled := True\<rparr>)"
    by simp
  ultimately have "(\<exists>s1. sessions (run parse evs st1) sid = Some s1 \<and> cancelled s1) \<and>
      updates_for sid (run parse evs st1) = updates_for sid st1"
    using assms(2) by (rule run_keeps_cancelled)
  with Some show ?thesis by simp
next
  case None
  with assms(1) have "sessions st1 sid = None" and "inherited_cancelled st1 sid = Some True"
    by (auto simp: cancel_def registry_get_def split: if_splits option.splits)
  then have "sessions (run parse evs st1) sid = None \<and>
      inherited_cancelled (run parse evs st1) sid = Some True \<and>
      updates_for sid (run parse evs st1) = updates_for sid st1"
    using assms(2) by (rule run_keeps_member_cancelled)
  with None show ?thesis by (simp add: member_cancelled_def)
qed

text \<open>
  After the cancellation of \<open>s1\<close>: a record for \<open>s1\<close>, a chunk on its standard
  output, a second cancellation and a prompt on another id; nothing is forwarded. And
  after a cancellation under the name \<open>constructor\<close>, which the registry object
  inherits: the flag written onto that member stays.
\<close>

theorem cancelled_until_next_prompt_witness:
  "cancel ''s1'' one_session = Inr (run parse_literal [Cancel ''s1''] one_session) \<and>
   (\<exists>s. sessions (run parse_literal
            [AgentMessage ''s1'' bash_tool_use, StdoutData ''s1'' ''true\<newline>'',
             Cancel ''s1'', Prompt (hello_prompt ''s2'')]
            (run parse_literal [Cancel ''s1''] one_session)) ''s1'' = Some s \<and> cancelled s) \<and>
   updates_for ''s1'' (run parse_literal
            [AgentMessage ''s1'' bash_tool_use, StdoutData ''s1'' ''true\<newline>'',
             Cancel ''s1'', Prompt (hello_prompt ''s2'')]
            (run parse_literal [Cancel ''s1''] one_session)) = [] \<and>
   sessions one_session ''constructor'' = None \<and>
   cancel ''constructor'' one_session =
     Inr (one_session\<lparr>inherited_cancelled := [''constructor'' \<mapsto> True]\<rparr>) \<and>
   member_cancelled (run parse_literal
            [AgentMessage ''constructor'' bash_tool_use, Prompt (hello_prompt ''__proto__'')]
            (one_session\<lparr>inherited_cancelled := [''constructor'' \<mapsto> True]\<rparr>)) ''constructor'' \<and>
   updates_for ''constructor'' (run parse_literal
            [AgentMessage ''constructor'' bash_tool_use, Prompt (hello_prompt ''__proto__'')]
            (one_session\<lparr>inherited_cancelled := [''constructor'' \<mapsto> True]\<rparr>)) = []"
proof -
  have c: "cancel ''s1'' one_session = Inr (run parse_literal [Cancel ''s1''] one_session)"
    by (simp add: run_def one_session_def newSession_def start_def new_CursorAgent_def
        new_CursorAcpAgent_def piped_child_def cancel_def registry_get_def)
  have r: "\<forall>ev \<in> set [AgentMessage ''s1'' bash_tool_use, StdoutData ''s1'' ''true\<newline>'',
             Cancel ''s1'', Prompt (hello_prompt ''s2'')]. \<not> restarts ''s1'' ev"
    by (simp add: hello_prompt_def)
  have s1: "\<exists>s. sessions one_session ''s1'' = Some s"
    by (simp add: run_def one_session_def newSession_def start_def new_CursorAgent_def
        new_CursorAcpAgent_def piped_child_def)
  have u: "updates_for ''s1'' (run parse_literal [Cancel ''s1''] one_session) = []"
    by (simp add: run_def one_session_def newSession_def start_def new_CursorAgent_def
        new_CursorAcpAgent_def piped_child_def cancel_def registry_get_def updates_for_def)
  have n: "sessions one_session ''constructor'' = None"
    and i: "inherited_cancelled one_session = Map.empty"
    and u0: "client_updates one_session = []"
    by (simp_all add: run_def one_session_def newSession_def start_def new_CursorAgent_def
        new_CursorAcpAgent_def piped_child_def)
  have c2: "cancel ''constructor'' one_session =
      Inr (one_session\<lparr>inherited_cancelled := [''constructor'' \<mapsto> True]\<rparr>)"
    using n i by (simp add: cancel_def registry_get_def object_prototype_members_def)
  have r2: "\<forall>ev \<in> set [AgentMessage ''constructor'' bash_tool_use,
      Prompt (hello_prompt ''__proto__'')]. \<not> restarts ''constructor'' ev"
    by (simp add: hello_prompt_def)
  have u2: "updates_for ''constructor''
      (one_session\<lparr>inherited_cancelled := [''constructor'' \<mapsto> True]\<rparr>) = []"
    using u0 by (simp add: updates_for_def)
  from cancelled_until_next_prompt [OF c r, of parse_literal] c u
  have first: "(\<exists>s. sessions (run parse_literal
            [AgentMessage ''s1'' bash_tool_use, StdoutData ''s1'' ''true\<newline>'',
             Cancel ''s1'', Prompt (hello_prompt ''s2'')]
            (run parse_literal [Cancel ''s1''] one_session)) ''s1'' = Some s \<and> cancelled s) \<and>
   updates_for ''s1'' (run parse_literal
            [AgentMessage ''s1'' bash_tool_use, StdoutData ''s1'' ''true\<newline>'',
             Cancel ''s1'', Prompt (hello_prompt ''s2'')]
            (run parse_literal [Cancel ''s1''] one_session)) = []"
    using s1 by simp
  from cancelled_until_next_prompt [OF c2 r2, of parse_literal] n u2
  have second: "member_cancelled (run parse_literal
            [AgentMessage ''constructor'' bash_tool_use, Prompt (hello_prompt ''__proto__'')]
            (one_session\<lparr>inherited_cancelled := [''constructor'' \<mapsto> True]\<rparr>)) ''constructor'' \<and>
   updates_for ''constructor'' (run parse_literal
            [AgentMessage ''constructor'' bash_tool_use, Prompt (hello_prompt ''__proto__'')]
            (one_session\<lparr>inherited_cancelled := [''constructor'' \<mapsto> True]\<rparr>)) = []"
    by simp
  from c first n c2 second show ?thesis
    by simp
qed

text \<open>
  Claim C2 as stated lets nothing through after \<open>cancel\<close>, whatever is called later.
  Here \<open>s1\<close> is cancelled, then prompted, and the next record of its subprocess is
  forwarded; the flag is down again.
\<close>

theorem cancel_then_prompt_counterexample:
  "updates_for ''s1'' (run parse_literal [Cancel ''s1''] one_session) = [] \<and>
   updates_for ''s1'' (run parse_literal
      [Cancel ''s1'', Prompt (hello_prompt ''s1''), StdoutData ''s1'' ''done\<newline>''] one_session) =
     [\<lparr>n_sessionId = ''s1'', sessionUpdate = ''agent_message_chunk'', content_type = ''text'',
       chunk_text = Some (JStr ''done'')\<rparr>] \<and>
   map_option cancelled (sessions (run parse_literal
      [Cancel ''s1'', Prompt (hello_prompt ''s1''), StdoutData ''s1'' ''done\<newline>''] one_session)
      ''s1'') = Some False"
  by (simp add: run_def one_session_def newSession_def start_def new_CursorAgent_def
      new_CursorAcpAgent_def piped_child_def cancel_def updates_for_def prompt_def
      hello_prompt_def promptToCursorAgent_def sendMessage_def on_session_stdout_def
      on_stdout_data_def processOutput_def on_message_def handleCursorAgentMessage_def registry_get_def forward_def
      classify_def parse_literal_def trim_def is_js_space_def nl_def)

lemma on_message_chunks:
  "\<forall>n \<in> set (client_updates st). sessionUpdate n = ''agent_message_chunk'' \<Longrightarrow>
   \<forall>n \<in> set (client_updates (on_message sid m st)). sessionUpdate n = ''agent_message_chunk''"
  using on_message_cases [of sid m st] forward_chunks [of sid m st] by auto

lemma fold_on_message_chunks:
  "\<forall>n \<in> set (client_updates st). sessionUpdate n = ''agent_message_chunk'' \<Longrightarrow>
   \<forall>n \<in> set (client_updates (fold (on_message sid) ms st)).
      sessionUpdate n = ''agent_message_chunk''"
proof (induction ms arbitrary: st)
  case Nil
  then show ?case by simp
next
  case (Cons m ms)
  have "\<forall>n \<in> set (client_updates (on_message sid m st)).
          sessionUpdate n = ''agent_message_chunk''"
    using Cons.prems by (rule on_message_chunks)
  then have "\<forall>n \<in> set (client_updates (fold (on_message sid) ms (on_message sid m st))).
          sessionUpdate n = ''agent_message_chunk''"
    by (rule Cons.IH)
  then show ?case by simp
qed

lemma step_chunks:
  assumes "\<forall>n \<in> set (client_updates st). sessionUpdate n = ''agent_message_chunk''"
  shows "\<forall>n \<in> set (client_updates (step parse ev st)).
           sessionUpdate n = ''agent_message_chunk''"
proof (cases ev)
  case (NewSession sid dir spawned)
  show ?thesis
  proof (cases "newSession sid dir spawned st")
    case (Inl e)
    with assms NewSession show ?thesis by simp
  next
    case (Inr res)
    obtain r st1 where res: "res = (r, st1)" by (cases res)
    from newSession_effect [of sid dir spawned st r st1] Inr res assms NewSession
    show ?thesis by simp
  qed
next
  case (Prompt params)
  show ?thesis
  proof (cases "prompt params st")
    case (Inl e)
    with assms Prompt show ?thesis by simp
  next
    case (Inr res)
    obtain r st1 where res: "res = (r, st1)" by (cases res)
    from prompt_effect [of params st r st1] Inr res assms Prompt
    show ?thesis by simp
  qed
next
  case (Cancel sid)
  show ?thesis
  proof (cases "cancel sid st")
    case (Inl e)
    with assms Cancel show ?thesis by simp
  next
    case (Inr st1)
    from cancel_effect [OF Inr] assms Cancel Inr
    show ?thesis by simp
  qed
next
  case (AgentMessage sid m)
  with on_message_chunks [OF assms] show ?thesis by simp
next
  case (StdoutData sid d)
  show ?thesis
  proof (cases "sessions st sid")
    case None
    with assms StdoutData show ?thesis by (simp add: on_session_stdout_def)
  next
    case (Some s)
    obtain a1 ms where od: "on_stdout_data parse d (cursorAgent s) = (a1, ms)"
      by (cases "on_stdout_data parse d (cursorAgent s)") auto
    let ?st1 = "st\<lparr>sessions := (sessions st)(sid \<mapsto> s\<lparr>cursorAgent := a1\<rparr>)\<rparr>"
    have "\<forall>n \<in> set (client_updates ?st1). sessionUpdate n = ''agent_message_chunk''"
      using assms by simp
    from fold_on_message_chunks [OF this, of sid ms] StdoutData Some od show ?thesis
      by (simp add: on_session_stdout_def)
  qed
qed

lemma run_chunks:
  "\<forall>n \<in> set (client_updates st). sessionUpdate n = ''agent_message_chunk'' \<Longrightarrow>
   \<forall>n \<in> set (client_updates (run parse evs st)). sessionUpdate n = ''agent_message_chunk''"
proof (induction evs arbitrary: st)
  case Nil
  then show ?case by (simp add: run_def)
next
  case (Cons ev evs)
  from Cons.IH [OF step_chunks [OF Cons.prems, of parse ev]] show ?case
    by (simp add: run_def)
qed

text \<open>
  Claim C1, as the code has it: a record that arrives for an existing session that is
  not cancelled, tool-shaped or not, is forwarded as one agent-message text chunk whose
  text is the record's \<open>content\<close> property (\<open>undefined\<close> when it has none); and every
  update an agent ever sends is an agent-message text chunk. The agent never calls the
  Tool Semantics Mapper: no tool-call report and no tool-call update is produced.
\<close>

theorem every_update_is_a_text_chunk:
  "(\<forall>s t. sessions st sid = Some s \<and> \<not> cancelled s \<and> message_content message = Inr t \<longrightarrow>
      handleCursorAgentMessage sid message st =
        Inr (st\<lparr>client_updates := client_updates st @
              [\<lparr>n_sessionId = sid, sessionUpdate = ''agent_message_chunk'',
                content_type = ''text'', chunk_text = t\<rparr>]\<rparr>)) \<and>
   (tool_shaped message \<longrightarrow> (\<exists>t. message_content message = Inr t)) \<and>
   (\<forall>n \<in> set (client_updates (run parse evs new_CursorAcpAgent)).
      sessionUpdate n = ''agent_message_chunk'')"
proof -
  have first: "\<forall>s t. sessions st sid = Some s \<and> \<not> cancelled s \<and>
      message_content message = Inr t \<longrightarrow>
      handleCursorAgentMessage sid message st =
        Inr (st\<lparr>client_updates := client_updates st @
              [\<lparr>n_sessionId = sid, sessionUpdate = ''agent_message_chunk'',
                content_type = ''text'', chunk_text = t\<rparr>]\<rparr>)"
    by (auto simp: handleCursorAgentMessage_def registry_get_def forward_def)
  have second: "tool_shaped message \<longrightarrow> (\<exists>t. message_content message = Inr t)"
    by (cases message) auto
  have "\<forall>n \<in> set (client_updates new_CursorAcpAgent). sessionUpdate n = ''agent_message_chunk''"
    by (simp add: new_CursorAcpAgent_def)
  from first second run_chunks [OF this] show ?thesis
    by blast
qed

text \<open>The record of a shell invocation arrives for the fresh session \<open>s1\<close>.\<close>

theorem every_update_is_a_text_chunk_witness:
  "map_option cancelled (sessions one_session ''s1'') = Some False \<and>
   tool_shaped bash_tool_use \<and>
   handleCursorAgentMessage ''s1'' bash_tool_use one_session =
     Inr (one_session\<lparr>client_updates :=
       [\<lparr>n_sessionId = ''s1'', sessionUpdate = ''agent_message_chunk'',
         content_type = ''text'', chunk_text = None\<rparr>]\<rparr>) \<and>
   length (client_updates (run parse_literal
        [NewSession ''s1'' ''/work'' piped_child, AgentMessage ''s1'' bash_tool_use]
        new_CursorAcpAgent)) = 1 \<and>
   set (map sessionUpdate (client_updates (run parse_literal
        [NewSession ''s1'' ''/work'' piped_child, AgentMessage ''s1'' bash_tool_use]
        new_CursorAcpAgent))) \<subseteq> {''agent_message_chunk''}"
proof -
  have s: "sessions one_session ''s1'' =
      Some \<lparr>cursorAgent = running_agent, cancelled = False, messages = []\<rparr>"
    and u: "client_updates one_session = []"
    by (simp_all add: one_session_def run_def newSession_def start_def new_CursorAgent_def
        new_CursorAcpAgent_def piped_child_def running_agent_def idle_agent_def)
  have t: "tool_shaped bash_tool_use" and c: "message_content bash_tool_use = Inr None"
    by (simp_all add: bash_tool_use_def)
  have ne: "length (client_updates (run parse_literal
        [NewSession ''s1'' ''/work'' piped_child, AgentMessage ''s1'' bash_tool_use]
        new_CursorAcpAgent)) = 1"
    by (simp add: run_def newSession_def start_def new_CursorAgent_def
        new_CursorAcpAgent_def piped_child_def on_message_def handleCursorAgentMessage_def registry_get_def forward_def
        bash_tool_use_def)
  note inst = every_update_is_a_text_chunk [of one_session "''s1''" bash_tool_use parse_literal
      "[NewSession ''s1'' ''/work'' piped_child, AgentMessage ''s1'' bash_tool_use]"]
  from inst s c u
  have h: "handleCursorAgentMessage ''s1'' bash_tool_use one_session =
     Inr (one_session\<lparr>client_updates :=
       [\<lparr>n_sessionId = ''s1'', sessionUpdate = ''agent_message_chunk'',
         content_type = ''text'', chunk_text = None\<rparr>]\<rparr>)"
    by simp
  from inst
  have "\<forall>n \<in> set (client_updates (run parse_literal
        [NewSession ''s1'' ''/work'' piped_child, AgentMessage ''s1'' bash_tool_use]
        new_CursorAcpAgent)). sessionUpdate n = ''agent_message_chunk''"
    by blast
  then have sub: "set (map sessionUpdate (client_updates (run parse_literal
        [NewSession ''s1'' ''/work'' piped_child, AgentMessage ''s1'' bash_tool_use]
        new_CursorAcpAgent))) \<subseteq> {''agent_message_chunk''}"
    by auto
  from s t h ne sub show ?thesis
    by simp
qed

text \<open>
  Claim C1 as stated has a tool-shaped record reported as a tool call. The record of a
  shell invocation, arriving for the fresh session \<open>s1\<close>, reaches the client as an
  agent-message text chunk, and no tool-call report is sent.
\<close>

theorem tool_record_sent_as_text_counterexample:
  "tool_shaped bash_tool_use \<and>
   client_updates (run parse_literal
        [NewSession ''s1'' ''/work'' piped_child, AgentMessage ''s1'' bash_tool_use]
        new_CursorAcpAgent) =
     [\<lparr>n_sessionId = ''s1'', sessionUpdate = ''agent_message_chunk'',
       content_type = ''text'', chunk_text = None\<rparr>] \<and>
   ''tool_call'' \<notin> set (map sessionUpdate (client_updates (run parse_literal
        [NewSession ''s1'' ''/work'' piped_child, AgentMessage ''s1'' bash_tool_use]
        new_CursorAcpAgent)))"
  by (simp add: run_def newSession_def start_def new_CursorAgent_def
      new_CursorAcpAgent_def piped_child_def on_message_def handleCursorAgentMessage_def registry_get_def forward_def
      bash_tool_use_def)

section \<open>Prompting\<close>

text \<open>
  The registry object also resolves the names it inherits: under \<open>constructor\<close> the
  lookup of \<open>prompt\<close> finds a function, the call refuses and leaves a flag on the
  function; under \<open>__proto__\<close> the lookup of \<open>cancel\<close> finds \<open>Object.prototype\<close>,
  writes the flag onto it and resolves; after that the name \<open>cancelled\<close> resolves to
  the boolean \<open>true\<close>, on which neither call can write.
\<close>

lemma prompt_on_inherited_member:
  "prompt (hello_prompt ''constructor'') one_session =
     Inr (refusal, one_session\<lparr>inherited_cancelled := [''constructor'' \<mapsto> False]\<rparr>)"
  by (simp add: one_session_def run_def newSession_def start_def new_CursorAgent_def
      new_CursorAcpAgent_def piped_child_def prompt_def hello_prompt_def registry_get_def
      object_prototype_members_def)

lemma cancel_on_inherited_member:
  "cancel ''__proto__'' one_session =
     Inr (one_session\<lparr>inherited_cancelled := [''__proto__'' \<mapsto> True]\<rparr>)"
  by (simp add: one_session_def run_def newSession_def start_def new_CursorAgent_def
      new_CursorAcpAgent_def piped_child_def cancel_def registry_get_def
      object_prototype_members_def)

lemma calls_on_written_flag:
  "prompt (hello_prompt ''cancelled'')
     (one_session\<lparr>inherited_cancelled := [''__proto__'' \<mapsto> True]\<rparr>) = Inl TypeError \<and>
   cancel ''cancelled''
     (one_session\<lparr>inherited_cancelled := [''__proto__'' \<mapsto> True]\<rparr>) = Inl TypeError"
  by (simp add: one_session_def run_def newSession_def start_def new_CursorAgent_def
      new_CursorAcpAgent_def piped_child_def prompt_def cancel_def hello_prompt_def
      registry_get_def object_prototype_members_def)

lemma unknown_id_resolves_nothing:
  "sessions st sid = None \<Longrightarrow> sid \<notin> set object_prototype_members \<Longrightarrow> sid \<noteq> ''cancelled'' \<Longrightarrow>
   resolves_nothing st sid"
  by (simp add: resolves_nothing_def registry_get_def)

text \<open>
  Claim C9, as the code has it: on a session id under which the registry object resolves
  nothing, as it does for every id that names neither a session nor a property the
  object inherits, \<open>prompt\<close> and \<open>cancel\<close> both raise the not-found error (the lookup
  stands before the \<open>try\<close>, so for \<open>prompt\<close> this is an exception, not a refusal); on
  a session of the registry \<open>prompt\<close> never raises: it returns the refusal when sending
  fails, which is when the wrapper is not running or has no input stream, and
  \<open>end_turn\<close> otherwise.
\<close>

theorem prompt_refuses_or_reports_not_found:
  "(resolves_nothing st (p_sessionId params) \<longrightarrow> prompt params st = Inl SessionNotFound) \<and>
   (resolves_nothing st sid \<longrightarrow> cancel sid st = Inl SessionNotFound) \<and>
   (sessions st sid = None \<and> sid \<notin> set object_prototype_members \<and> sid \<noteq> ''cancelled'' \<longrightarrow>
      resolves_nothing st sid) \<and>
   (\<forall>s. sessions st (p_sessionId params) = Some s \<longrightarrow>
      (\<exists>st1. prompt params st =
         Inr (case sendMessage (promptToCursorAgent params) (cursorAgent s) of
                Inl e \<Rightarrow> refusal
              | Inr a \<Rightarrow> end_turn, st1))) \<and>
   (\<forall>e. sendMessage m a = Inl e \<longleftrightarrow>
      e = NotRunning \<and> (\<not> isRunning a \<or> process a = None \<or> \<not> has_stdin (the (process a))))"
proof -
  have p: "resolves_nothing st (p_sessionId params) \<longrightarrow> prompt params st = Inl SessionNotFound"
    by (cases "registry_get st (p_sessionId params)")
      (simp_all add: resolves_nothing_def prompt_def)
  have c: "resolves_nothing st sid \<longrightarrow> cancel sid st = Inl SessionNotFound"
    by (cases "registry_get st sid") (simp_all add: resolves_nothing_def cancel_def)
  have u: "sessions st sid = None \<and> sid \<notin> set object_prototype_members \<and> sid \<noteq> ''cancelled'' \<longrightarrow>
      resolves_nothing st sid"
    by (simp add: unknown_id_resolves_nothing)
  have k: "\<forall>s. sessions st (p_sessionId params) = Some s \<longrightarrow>
      (\<exists>st1. prompt params st =
         Inr (case sendMessage (promptToCursorAgent params) (cursorAgent s) of
                Inl e \<Rightarrow> refusal
              | Inr a \<Rightarrow> end_turn, st1))"
    by (auto simp: prompt_def registry_get_own Let_def split: sum.splits)
  have f: "\<forall>e. sendMessage m a = Inl e \<longleftrightarrow>
      e = NotRunning \<and> (\<not> isRunning a \<or> process a = None \<or> \<not> has_stdin (the (process a)))"
    by (auto simp: sendMessage_def split: option.splits)
  from p c u k f show ?thesis
    by blast
qed

text \<open>
  An id that no session has; and the session \<open>s1\<close>, prompted while its wrapper runs
  and again after its wrapper has stopped.
\<close>

theorem prompt_refuses_or_reports_not_found_witness:
  "sessions one_session ''s0'' = None \<and> ''s0'' \<notin> set object_prototype_members \<and>
   resolves_nothing one_session ''s0'' \<and>
   prompt (hello_prompt ''s0'') one_session = Inl SessionNotFound \<and>
   cancel ''s0'' one_session = Inl SessionNotFound \<and>
   map_option (isAlive \<circ> cursorAgent) (sessions one_session ''s1'') = Some True \<and>
   map_sum id fst (prompt (hello_prompt ''s1'') one_session) = Inr end_turn \<and>
   map_sum id fst (prompt (hello_prompt ''s1'')
      (one_session\<lparr>sessions := (sessions one_session)(''s1'' \<mapsto>
         \<lparr>cursorAgent = fst (stop None running_agent), cancelled = False, messages = []\<rparr>)\<rparr>))
     = Inr refusal"
proof -
  have s0: "sessions one_session ''s0'' = None"
    and s1: "sessions one_session ''s1'' =
      Some \<lparr>cursorAgent = running_agent, cancelled = False, messages = []\<rparr>"
    by (simp_all add: one_session_def run_def newSession_def start_def new_CursorAgent_def
        new_CursorAcpAgent_def piped_child_def running_agent_def idle_agent_def)
  have alive: "isAlive running_agent"
    and ok: "\<exists>a. sendMessage (promptToCursorAgent (hello_prompt ''s1'')) running_agent = Inr a"
    and bad: "\<exists>e. sendMessage (promptToCursorAgent (hello_prompt ''s1''))
        (fst (stop None running_agent)) = Inl e"
    by (simp_all add: isAlive_def running_agent_def idle_agent_def start_def
        new_CursorAgent_def piped_child_def sendMessage_def stop_def exits_in_time_def)
  let ?st2 = "one_session\<lparr>sessions := (sessions one_session)(''s1'' \<mapsto>
         \<lparr>cursorAgent = fst (stop None running_agent), cancelled = False, messages = []\<rparr>)\<rparr>"
  have p0: "p_sessionId (hello_prompt ''s0'') = ''s0''"
    and p1: "p_sessionId (hello_prompt ''s1'') = ''s1''"
    by (simp_all add: hello_prompt_def)
  note t0 = prompt_refuses_or_reports_not_found [of one_session "hello_prompt ''s0''" "''s0''"
      "promptToCursorAgent (hello_prompt ''s0'')" running_agent]
  note t1 = prompt_refuses_or_reports_not_found [of one_session "hello_prompt ''s1''" "''s1''"
      "promptToCursorAgent (hello_prompt ''s1'')" running_agent]
  note t2 = prompt_refuses_or_reports_not_found [of ?st2 "hello_prompt ''s1''" "''s1''"
      "promptToCursorAgent (hello_prompt ''s1'')" running_agent]
  have m0: "''s0'' \<notin> set object_prototype_members" and n0: "''s0'' \<noteq> ''cancelled''"
    by (simp_all add: object_prototype_members_def)
  from t0 have "sessions one_session ''s0'' = None \<and> ''s0'' \<notin> set object_prototype_members \<and>
      ''s0'' \<noteq> ''cancelled'' \<longrightarrow> resolves_nothing one_session ''s0''"
    by blast
  with s0 m0 n0 have r0: "resolves_nothing one_session ''s0''"
    by blast
  from t0 have "resolves_nothing one_session (p_sessionId (hello_prompt ''s0'')) \<longrightarrow>
      prompt (hello_prompt ''s0'') one_session = Inl SessionNotFound"
    and "resolves_nothing one_session ''s0'' \<longrightarrow> cancel ''s0'' one_session = Inl SessionNotFound"
    by blast+
  with r0 p0 have a: "prompt (hello_prompt ''s0'') one_session = Inl SessionNotFound"
    and b: "cancel ''s0'' one_session = Inl SessionNotFound"
    by simp_all
  from ok obtain a1 where a1: "sendMessage (promptToCursorAgent (hello_prompt ''s1'')) running_agent = Inr a1"
    by blast
  from t1 have "\<forall>s. sessions one_session (p_sessionId (hello_prompt ''s1'')) = Some s \<longrightarrow>
      (\<exists>st1. prompt (hello_prompt ''s1'') one_session =
         Inr (case sendMessage (promptToCursorAgent (hello_prompt ''s1'')) (cursorAgent s) of
                Inl e \<Rightarrow> refusal
              | Inr a \<Rightarrow> end_turn, st1))"
    by blast
  with s1 p1 a1 obtain st1 where "prompt (hello_prompt ''s1'') one_session = Inr (end_turn, st1)"
    by auto
  then have c: "map_sum id fst (prompt (hello_prompt ''s1'') one_session) = Inr end_turn"
    by simp
  from bad obtain e1 where e1: "sendMessage (promptToCursorAgent (hello_prompt ''s1''))
        (fst (stop None running_agent)) = Inl e1"
    by blast
  from t2 have "\<forall>s. sessions ?st2 (p_sessionId (hello_prompt ''s1'')) = Some s \<longrightarrow>
      (\<exists>st1. prompt (hello_prompt ''s1'') ?st2 =
         Inr (case sendMessage (promptToCursorAgent (hello_prompt ''s1'')) (cursorAgent s) of
                Inl e \<Rightarrow> refusal
              | Inr a \<Rightarrow> end_turn, st1))"
    by blast
  with p1 e1 obtain st2 where "prompt (hello_prompt ''s1'') ?st2 = Inr (refusal, st2)"
    by auto
  then have d: "map_sum id fst (prompt (hello_prompt ''s1'') ?st2) = Inr refusal"
    by simp
  from s0 m0 r0 s1 alive a b c d show ?thesis
    by simp
qed

text \<open>
  Claim C9 as stated turns every failure of \<open>prompt\<close>, the unknown session id included,
  into a refusal. On an id that no session has, \<open>prompt\<close> raises instead.
\<close>

theorem prompt_unknown_session_counterexample:
  "sessions one_session ''s0'' = None \<and>
   prompt (hello_prompt ''s0'') one_session = Inl SessionNotFound \<and>
   map_sum id fst (prompt (hello_prompt ''s0'') one_session) \<noteq> Inr refusal"
  by (simp add: one_session_def run_def newSession_def start_def new_CursorAgent_def
      new_CursorAcpAgent_def piped_child_def prompt_def hello_prompt_def registry_get_def
      object_prototype_members_def)

text \<open>
  Claim C10: on a session of the registry, \<open>prompt\<close> returns with the session's
  cancelled flag cleared, whether the prompt could be written to the subprocess or not
  (the flag is cleared before the attempt), and the session and every other session are
  otherwise as the call found them but for the message written and logged; so every record
  that arrives next for the session is forwarded, also when the session had been cancelled.
\<close>

theorem prompt_clears_cancelled:
  assumes "sessions st (p_sessionId params) = Some s"
  shows "\<exists>r st1 s1.
           prompt params st = Inr (r, st1) \<and>
           sessions st1 (p_sessionId params) = Some s1 \<and> \<not> cancelled s1 \<and>
           client_updates st1 = client_updates st \<and>
           (r = end_turn \<longrightarrow>
              sendMessage (promptToCursorAgent params) (cursorAgent (s\<lparr>cancelled := False\<rparr>)) =
                Inr (cursorAgent s1)) \<and>
           (\<forall>m t. message_content m = Inr t \<longrightarrow>
              handleCursorAgentMessage (p_sessionId params) m st1 =
                Inr (st1\<lparr>client_updates := client_updates st1 @
                      [\<lparr>n_sessionId = p_sessionId params, sessionUpdate = ''agent_message_chunk'',
                        content_type = ''text'', chunk_text = t\<rparr>]\<rparr>))"
  using assms
  by (cases "sendMessage (promptToCursorAgent params) (cursorAgent s)")
    (auto simp: prompt_def Let_def handleCursorAgentMessage_def registry_get_def forward_def)

text \<open>The session \<open>s1\<close> is cancelled, prompted, and then hears from its subprocess.\<close>

theorem prompt_clears_cancelled_witness:
  "map_option cancelled (sessions (run parse_literal [Cancel ''s1''] one_session) ''s1'') = Some True \<and>
   map_option cancelled (sessions (run parse_literal
      [Cancel ''s1'', Prompt (hello_prompt ''s1'')] one_session) ''s1'') = Some False \<and>
   updates_for ''s1'' (run parse_literal
      [Cancel ''s1'', Prompt (hello_prompt ''s1''), AgentMessage ''s1'' (JObj [(''content'', JStr ''hi'')])]
      one_session) =
     [\<lparr>n_sessionId = ''s1'', sessionUpdate = ''agent_message_chunk'', content_type = ''text'',
       chunk_text = Some (JStr ''hi'')\<rparr>]"
proof -
  let ?c = "run parse_literal [Cancel ''s1''] one_session"
  have c: "sessions ?c ''s1'' =
      Some \<lparr>cursorAgent = running_agent, cancelled = True, messages = []\<rparr>"
    and u: "client_updates ?c = []"
    by (simp_all add: one_session_def run_def newSession_def start_def new_CursorAgent_def
        new_CursorAcpAgent_def piped_child_def running_agent_def idle_agent_def cancel_def registry_get_def)
  have p1: "p_sessionId (hello_prompt ''s1'') = ''s1''"
    by (simp add: hello_prompt_def)
  from prompt_clears_cancelled [of ?c "hello_prompt ''s1''"] c p1
  obtain r st1 s1 where pr: "prompt (hello_prompt ''s1'') ?c = Inr (r, st1)"
    and s1: "sessions st1 ''s1'' = Some s1" "\<not> cancelled s1"
    and cu: "client_updates st1 = client_updates ?c"
    and fw: "\<forall>m t. message_content m = Inr t \<longrightarrow>
              handleCursorAgentMessage ''s1'' m st1 =
                Inr (st1\<lparr>client_updates := client_updates st1 @
                      [\<lparr>n_sessionId = ''s1'', sessionUpdate = ''agent_message_chunk'',
                        content_type = ''text'', chunk_text = t\<rparr>]\<rparr>)"
    by auto
  have r2: "run parse_literal [Cancel ''s1'', Prompt (hello_prompt ''s1'')] one_session = st1"
    using pr by (simp add: run_def)
  have "message_content (JObj [(''content'', JStr ''hi'')]) = Inr (Some (JStr ''hi''))"
    by simp
  with fw have "handleCursorAgentMessage ''s1'' (JObj [(''content'', JStr ''hi'')]) st1 =
      Inr (st1\<lparr>client_updates := client_updates st1 @
            [\<lparr>n_sessionId = ''s1'', sessionUpdate = ''agent_message_chunk'',
              content_type = ''text'', chunk_text = Some (JStr ''hi'')\<rparr>]\<rparr>)"
    by blast
  then have r3: "updates_for ''s1'' (run parse_literal
      [Cancel ''s1'', Prompt (hello_prompt ''s1''), AgentMessage ''s1'' (JObj [(''content'', JStr ''hi'')])]
      one_session) =
     [\<lparr>n_sessionId = ''s1'', sessionUpdate = ''agent_message_chunk'', content_type = ''text'',
       chunk_text = Some (JStr ''hi'')\<rparr>]"
    using pr cu u by (simp add: run_def on_message_def updates_for_def)
  from c r2 s1 r3 show ?thesis
    by simp
qed

section \<open>Stopping the subprocess\<close>

text \<open>
  Claim C5, as the code has it: \<open>stop\<close> on a wrapper that is not alive returns at
  once, sends nothing, changes nothing and does not raise, so a second \<open>stop\<close> is a
  no-op; on a live wrapper it sends SIGTERM and resolves when the \<open>exit\<close> event comes
  within the grace time of 5000 ms, and otherwise sends SIGKILL when the grace time has
  elapsed and resolves at that moment, without waiting for the \<open>exit\<close> event. It
  resolves after at most the grace time in every case, and leaves the wrapper not alive.
\<close>

theorem stop_grace_then_kill:
  "grace_ms = 5000 \<and>
   resolved_after (snd (stop exit_after a)) \<le> grace_ms \<and>
   \<not> isAlive (fst (stop exit_after a)) \<and>
   (\<not> isAlive a \<longrightarrow> stop exit_after a = (a, returned_at_once)) \<and>
   (isAlive a \<and> exits_in_time exit_after \<longrightarrow>
      snd (stop exit_after a) =
        \<lparr>sent = [SIGTERM], resolved_after = the exit_after, exit_seen = True\<rparr>) \<and>
   (isAlive a \<and> \<not> exits_in_time exit_after \<longrightarrow>
      snd (stop exit_after a) =
        \<lparr>sent = [SIGTERM, SIGKILL], resolved_after = grace_ms, exit_seen = False\<rparr>) \<and>
   stop exit_after2 (fst (stop exit_after a)) = (fst (stop exit_after a), returned_at_once)"
  by (auto simp: stop_def isAlive_def exits_in_time_def returned_at_once_def grace_ms_def
      split: option.splits)

text \<open>
  A subprocess that exits 120 ms after SIGTERM, one that ignores SIGTERM, and a wrapper
  that was never started.
\<close>

theorem stop_grace_then_kill_witness:
  "isAlive running_agent \<and> \<not> isAlive idle_agent \<and>
   exits_in_time (Some 120) \<and> \<not> exits_in_time None \<and>
   snd (stop (Some 120) running_agent) =
     \<lparr>sent = [SIGTERM], resolved_after = 120, exit_seen = True\<rparr> \<and>
   snd (stop None running_agent) =
     \<lparr>sent = [SIGTERM, SIGKILL], resolved_after = 5000, exit_seen = False\<rparr> \<and>
   stop None idle_agent = (idle_agent, returned_at_once) \<and>
   stop None (fst (stop None running_agent)) = (fst (stop None running_agent), returned_at_once)"
proof -
  have alive: "isAlive running_agent" and idle: "\<not> isAlive idle_agent"
    by (simp_all add: isAlive_def running_agent_def idle_agent_def start_def
        new_CursorAgent_def piped_child_def)
  have e1: "exits_in_time (Some 120)" and e2: "\<not> exits_in_time None"
    by (simp_all add: exits_in_time_def grace_ms_def)
  from stop_grace_then_kill [of "Some 120" running_agent None]
    stop_grace_then_kill [of None running_agent None]
    stop_grace_then_kill [of None idle_agent None]
    alive idle e1 e2
  show ?thesis by simp
qed

text \<open>
  Claim C5 as stated has \<open>stop\<close> resolve once the subprocess has exited. With a
  subprocess that ignores SIGTERM, \<open>stop\<close> resolves when the grace time has elapsed,
  having just sent SIGKILL, and no \<open>exit\<close> event has come.
\<close>

theorem stop_resolves_before_exit_counterexample:
  "isAlive running_agent \<and>
   sent (snd (stop None running_agent)) = [SIGTERM, SIGKILL] \<and>
   resolved_after (snd (stop None running_agent)) = 5000 \<and>
   \<not> exit_seen (snd (stop None running_agent))"
  by (simp add: isAlive_def running_agent_def idle_agent_def start_def new_CursorAgent_def
      piped_child_def stop_def exits_in_time_def grace_ms_def)

section \<open>The tool semantics mapper\<close>

subsection \<open>Read titles\<close>

lemma read_input_lookup:
  "key \<noteq> ''offset'' \<Longrightarrow> key \<noteq> ''limit'' \<Longrightarrow>
   input_string (read_input key path off lim) key = Some path \<and>
   input_number (read_input key path off lim) ''offset'' = off \<and>
   input_number (read_input key path off lim) ''limit'' = lim"
  by (cases off; cases lim) (simp_all add: read_input_def input_string_def input_number_def)

text \<open>
  Claim C6, as the tests have it: for a read invocation with path \<open>p\<close>, offset
  \<open>off\<close> and limit \<open>lim\<close>, the title is \<open>Read p\<close> for the namespaced read tool and the
  generic \<open>Read File\<close> for the built-in one, followed by the range suffix: none for
  (none, none), \<open>(1 - 100)\<close> for (none, 100), \<open>(51 - 150)\<close> for (50, 100), that is
  \<open>offset + 1\<close> to \<open>offset + limit\<close>, and \<open>(from line 201)\<close> for (200, none); the one
  location carries the path and the raw offset, 0 when there is none.
\<close>

theorem read_title_and_location:
  "(input_string input ''abs_path'' = Some p \<longrightarrow>
      toolInfoFromToolUse \<lparr>tu_id = i, tu_name = ''mcp__acp__read'', tu_input = input\<rparr> cache =
        Some \<lparr>kind = ''read'',
              title = ''Read '' @ p @
                read_range (input_number input ''offset'') (input_number input ''limit''),
              info_content = [],
              locations = Some [\<lparr>loc_path = p,
                loc_line = Some (case input_number input ''offset'' of
                                   None \<Rightarrow> 0 | Some off \<Rightarrow> off)\<rparr>]\<rparr>) \<and>
   (input_string input ''file_path'' = Some p \<longrightarrow>
      toolInfoFromToolUse \<lparr>tu_id = i, tu_name = ''Read'', tu_input = input\<rparr> cache =
        Some \<lparr>kind = ''read'',
              title = ''Read File'' @
                read_range (input_number input ''offset'') (input_number input ''limit''),
              info_content = [],
              locations = Some [\<lparr>loc_path = p,
                loc_line = Some (case input_number input ''offset'' of
                                   None \<Rightarrow> 0 | Some off \<Rightarrow> off)\<rparr>]\<rparr>) \<and>
   read_range None None = [] \<and>
   read_range None (Some 100) = '' (1 - 100)'' \<and>
   read_range (Some 50) (Some 100) = '' (51 - 150)'' \<and>
   read_range (Some 200) None = '' (from line 201)'' \<and>
   (\<forall>off lim. read_range (Some off) (Some lim) =
      '' ('' @ show_int (off + 1) @ '' - '' @ show_int (off + lim) @ '')'')"
proof -
  have "show_int 100 = ''100''" "show_int 51 = ''51''" "show_int 150 = ''150''"
    "show_int 201 = ''201''"
    by (simp_all add: show_int_def show_nat.simps)
  then show ?thesis
    by (simp add: toolInfoFromToolUse_def acp_read_info_def read_info_def read_locations_def
        read_range_def)
qed

text \<open>The four read invocations of the tests, and the built-in tool of the first.\<close>

theorem read_title_and_location_witness:
  "map_option title (toolInfoFromToolUse
      \<lparr>tu_id = ''toolu_01'', tu_name = ''mcp__acp__read'',
       tu_input = read_input ''abs_path'' ''/Users/test/project/large.txt'' (Some 50) (Some 100)\<rparr>
      Map.empty) = Some ''Read /Users/test/project/large.txt (51 - 150)'' \<and>
   map_option locations (toolInfoFromToolUse
      \<lparr>tu_id = ''toolu_01'', tu_name = ''mcp__acp__read'',
       tu_input = read_input ''abs_path'' ''/Users/test/project/large.txt'' (Some 50) (Some 100)\<rparr>
      Map.empty) =
     Some (Some [\<lparr>loc_path = ''/Users/test/project/large.txt'', loc_line = Some 50\<rparr>]) \<and>
   map_option title (toolInfoFromToolUse
      \<lparr>tu_id = ''toolu_01'', tu_name = ''mcp__acp__read'',
       tu_input = read_input ''abs_path'' ''/Users/test/project/large.txt'' None (Some 100)\<rparr>
      Map.empty) = Some ''Read /Users/test/project/large.txt (1 - 100)'' \<and>
   map_option title (toolInfoFromToolUse
      \<lparr>tu_id = ''toolu_01'', tu_name = ''mcp__acp__read'',
       tu_input = read_input ''abs_path'' ''/Users/test/project/large.txt'' (Some 200) None\<rparr>
      Map.empty) = Some ''Read /Users/test/project/large.txt (from line 201)'' \<and>
   map_option title (toolInfoFromToolUse
      \<lparr>tu_id = ''toolu_01'', tu_name = ''Read'',
       tu_input = read_input ''file_path'' ''/Users/test/project/readme.md'' None None\<rparr>
      Map.empty) = Some ''Read File'' \<and>
   map_option locations (toolInfoFromToolUse
      \<lparr>tu_id = ''toolu_01'', tu_name = ''Read'',
       tu_input = read_input ''file_path'' ''/Users/test/project/readme.md'' None None\<rparr>
      Map.empty) =
     Some (Some [\<lparr>loc_path = ''/Users/test/project/readme.md'', loc_line = Some 0\<rparr>])"
proof -
  note l1 = read_input_lookup [of "''abs_path''" "''/Users/test/project/large.txt''"]
  note l2 = read_input_lookup [of "''file_path''" "''/Users/test/project/readme.md''"]
  note t = read_title_and_location [where cache = Map.empty and i = "''toolu_01''"]
  from t [of "read_input ''abs_path'' ''/Users/test/project/large.txt'' (Some 50) (Some 100)"
      "''/Users/test/project/large.txt''"]
    l1 [of "Some 50" "Some 100"]
  have a: "toolInfoFromToolUse
      \<lparr>tu_id = ''toolu_01'', tu_name = ''mcp__acp__read'',
       tu_input = read_input ''abs_path'' ''/Users/test/project/large.txt'' (Some 50) (Some 100)\<rparr>
      Map.empty =
     Some \<lparr>kind = ''read'', title = ''Read /Users/test/project/large.txt (51 - 150)'',
           info_content = [],
           locations = Some [\<lparr>loc_path = ''/Users/test/project/large.txt'',
                              loc_line = Some 50\<rparr>]\<rparr>"
    by (elim conjE) simp
  from t [of "read_input ''abs_path'' ''/Users/test/project/large.txt'' None (Some 100)"
      "''/Users/test/project/large.txt''"]
    l1 [of None "Some 100"]
  have b: "map_option title (toolInfoFromToolUse
      \<lparr>tu_id = ''toolu_01'', tu_name = ''mcp__acp__read'',
       tu_input = read_input ''abs_path'' ''/Users/test/project/large.txt'' None (Some 100)\<rparr>
      Map.empty) = Some ''Read /Users/test/project/large.txt (1 - 100)''"
    by (elim conjE) simp
  from t [of "read_input ''abs_path'' ''/Users/test/project/large.txt'' (Some 200) None"
      "''/Users/test/project/large.txt''"]
    l1 [of "Some 200" None]
  have c: "map_option title (toolInfoFromToolUse
      \<lparr>tu_id = ''toolu_01'', tu_name = ''mcp__acp__read'',
       tu_input = read_input ''abs_path'' ''/Users/test/project/large.txt'' (Some 200) None\<rparr>
      Map.empty) = Some ''Read /Users/test/project/large.txt (from line 201)''"
    by (elim conjE) simp
  from t [of "read_input ''file_path'' ''/Users/test/project/readme.md'' None None"
      "''/Users/test/project/readme.md''"]
    l2 [of None None]
  have d: "toolInfoFromToolUse
      \<lparr>tu_id = ''toolu_01'', tu_name = ''Read'',
       tu_input = read_input ''file_path'' ''/Users/test/project/readme.md'' None None\<rparr>
      Map.empty =
     Some \<lparr>kind = ''read'', title = ''Read File'', info_content = [],
           locations = Some [\<lparr>loc_path = ''/Users/test/project/readme.md'',
                              loc_line = Some 0\<rparr>]\<rparr>"
    by (elim conjE) simp
  from a b c d show ?thesis
    by simp
qed

text \<open>
  Claim C6 as stated gives every read invocation with a path and neither offset nor
  limit the title \<open>Read File\<close>. The namespaced read tool names the path instead, as the
  test of \<open>mcp__acp__read\<close> expects.
\<close>

theorem read_title_names_path_counterexample:
  "map_option title (toolInfoFromToolUse
      \<lparr>tu_id = ''toolu_01YZA789BCD123'', tu_name = ''mcp__acp__read'',
       tu_input = [(''abs_path'', JStr ''/Users/test/project/data.json'')]\<rparr> Map.empty) =
     Some ''Read /Users/test/project/data.json'' \<and>
   map_option title (toolInfoFromToolUse
      \<lparr>tu_id = ''toolu_01YZA789BCD123'', tu_name = ''mcp__acp__read'',
       tu_input = [(''abs_path'', JStr ''/Users/test/project/data.json'')]\<rparr> Map.empty) \<noteq>
     Some ''Read File''"
  by (simp add: toolInfoFromToolUse_def acp_read_info_def input_string_def input_number_def
      read_range_def)

subsection \<open>Tool results\<close>

lemma update_texts_ContentText: "concat (map (\<lambda>t. [t]) ts) = ts"
  by (induction ts) simp_all

text \<open>
  Claim C7: whatever the invocation, a result whose error flag is not set gives the
  empty update, and a result whose error flag is set gives an update whose content is the
  result's text content, block for block.
\<close>

theorem result_update_silent_unless_error:
  "(is_error toolResult \<noteq> Some True \<longrightarrow>
      toolUpdateFromToolResult toolResult toolUse = \<lparr>upd_content = None\<rparr>) \<and>
   (is_error toolResult = Some True \<longrightarrow>
      toolUpdateFromToolResult toolResult toolUse =
        \<lparr>upd_content = Some (map ContentText (result_texts (tr_content toolResult)))\<rparr> \<and>
      update_texts (toolUpdateFromToolResult toolResult toolUse) =
        result_texts (tr_content toolResult))"
  by (simp add: toolUpdateFromToolResult_def comp_def update_texts_ContentText)

text \<open>The two reconciliation tests: the result of an edit, succeeded and failed.\<close>

theorem result_update_silent_unless_error_witness:
  "is_error ok_result \<noteq> Some True \<and> is_error failed_result = Some True \<and>
   toolUpdateFromToolResult ok_result edit_tool_use = \<lparr>upd_content = None\<rparr> \<and>
   toolUpdateFromToolResult failed_result edit_tool_use =
     \<lparr>upd_content = Some [ContentText ''Failed to find `old_string`'']\<rparr>"
proof -
  have "is_error ok_result \<noteq> Some True" "is_error failed_result = Some True"
    "tr_content failed_result = [ResultText ''Failed to find `old_string`'']"
    by (simp_all add: ok_result_def failed_result_def)
  with result_update_silent_unless_error [of ok_result edit_tool_use]
    result_update_silent_unless_error [of failed_result edit_tool_use]
  show ?thesis by simp
qed

subsection \<open>Multi-edit\<close>

lemma index_of_first:
  "index_of pat s = Some i \<Longrightarrow>
   i \<le> length s \<and> starts_with pat (drop i s) \<and> (\<forall>j < i. \<not> starts_with pat (drop j s))"
proof (induction s arbitrary: i)
  case Nil
  then show ?case by (simp add: starts_with_def split: if_splits)
next
  case (Cons c cs)
  show ?case
  proof (cases "starts_with pat (c # cs)")
    case True
    with Cons.prems show ?thesis by simp
  next
    case False
    with Cons.prems obtain k where k: "index_of pat cs = Some k" and i: "i = Suc k"
      by auto
    from Cons.IH [OF k] have le: "k \<le> length cs" and at: "starts_with pat (drop k cs)"
      and before: "\<forall>j < k. \<not> starts_with pat (drop j cs)"
      by simp_all
    have "\<not> starts_with pat (drop j (c # cs))" if "j < Suc k" for j
      using that False before by (cases j) simp_all
    with i le at show ?thesis by simp
  qed
qed

lemma multi_edit_edited_text:
  "edited_text s eds = Some final \<Longrightarrow>
   \<exists>lns. multi_edit s eds = Some (final, lns) \<and> length lns = length eds \<and>
     (\<forall>i < length eds. \<exists>t idx.
        edited_text s (take i eds) = Some t \<and>
        index_of (old_string (eds ! i)) t = Some idx \<and>
        lns ! i = line_at t idx)"
proof (induction eds arbitrary: s)
  case Nil
  then show ?case by simp
next
  case (Cons ed eds)
  from Cons.prems obtain s1 ln where ap: "apply_edit ed s = Some (s1, ln)"
    and rest: "edited_text s1 eds = Some final"
    by (auto split: option.splits)
  from ap obtain idx0 where idx0: "index_of (old_string ed) s = Some idx0"
    and ln: "ln = line_at s idx0"
    by (auto simp: apply_edit_def split: if_splits option.splits)
  from Cons.IH [OF rest] obtain lns where me: "multi_edit s1 eds = Some (final, lns)"
    and len: "length lns = length eds"
    and each: "\<forall>i < length eds. \<exists>t idx.
        edited_text s1 (take i eds) = Some t \<and>
        index_of (old_string (eds ! i)) t = Some idx \<and>
        lns ! i = line_at t idx"
    by blast
  have "\<exists>t idx. edited_text s (take i (ed # eds)) = Some t \<and>
        index_of (old_string ((ed # eds) ! i)) t = Some idx \<and>
        (ln # lns) ! i = line_at t idx" if "i < length (ed # eds)" for i
  proof (cases i)
    case 0
    with idx0 ln show ?thesis by simp
  next
    case (Suc j)
    with that have "j < length eds" by simp
    with each Suc ap show ?thesis by simp
  qed
  with ap me len show ?case by simp
qed

text \<open>
  Claim C8: for a multi-edit over a path whose text is cached, when each operation finds
  its search text in the text as the operations before it have left it, the descriptor
  carries one diff from the cached text to the text after all the operations, applied in
  order, and one location for each operation: the 0-indexed line on which the first
  occurrence of its search text begins in the text the operation is applied to.
\<close>

theorem multi_edit_sequential:
  assumes "fileCache path = Some original" and "edited_text original eds = Some final"
  shows "\<exists>lns.
      multi_edit original eds = Some (final, lns) \<and>
      multi_edit_info fileCache path eds =
        Some \<lparr>kind = ''edit'', title = ''Edit '' @ path,
              info_content = [Diff path (Some original) final],
              locations = Some (map (\<lambda>ln. \<lparr>loc_path = path, loc_line = Some (int ln)\<rparr>) lns)\<rparr> \<and>
      length lns = length eds \<and>
      (\<forall>i < length eds. \<exists>t idx.
         edited_text original (take i eds) = Some t \<and>
         starts_with (old_string (eds ! i)) (drop idx t) \<and>
         (\<forall>j < idx. \<not> starts_with (old_string (eds ! i)) (drop j t)) \<and>
         lns ! i = line_at t idx)"
proof -
  from multi_edit_edited_text [OF assms(2)] obtain lns
    where me: "multi_edit original eds = Some (final, lns)"
      and len: "length lns = length eds"
      and each: "\<forall>i < length eds. \<exists>t idx.
        edited_text original (take i eds) = Some t \<and>
        index_of (old_string (eds ! i)) t = Some idx \<and>
        lns ! i = line_at t idx"
    by blast
  have "\<exists>t idx. edited_text original (take i eds) = Some t \<and>
         starts_with (old_string (eds ! i)) (drop idx t) \<and>
         (\<forall>j < idx. \<not> starts_with (old_string (eds ! i)) (drop j t)) \<and>
         lns ! i = line_at t idx" if "i < length eds" for i
  proof -
    from each that obtain t idx where t: "edited_text original (take i eds) = Some t"
      and ix: "index_of (old_string (eds ! i)) t = Some idx" and ln: "lns ! i = line_at t idx"
      by blast
    from index_of_first [OF ix] t ln show ?thesis by blast
  qed
  with me len assms(1) show ?thesis
    by (intro exI [of _ lns]) (simp add: multi_edit_info_def)
qed

lemma config_edited_text: "edited_text config_json config_edits = Some config_json_edited"
  by (simp add: config_edits_def config_json_def config_json_edited_def apply_edit_def
      starts_with_def replace_first_def replace_every.simps nl_def)

lemma config_lines: "map_option snd (multi_edit config_json config_edits) = Some [1, 3]"
  by (simp add: config_edits_def config_json_def apply_edit_def
      starts_with_def replace_first_def replace_every.simps line_at_def nl_def)

text \<open>
  The multi-edit test: the version is edited on line 1 and, in the text so changed, the
  enabled flag on line 3.
\<close>

theorem multi_edit_sequential_witness:
  "toolInfoFromToolUse config_tool_use [config_path \<mapsto> config_json] =
     Some \<lparr>kind = ''edit'', title = ''Edit /Users/test/project/config.json'',
           info_content = [Diff config_path (Some config_json) config_json_edited],
           locations = Some [\<lparr>loc_path = config_path, loc_line = Some 1\<rparr>,
                             \<lparr>loc_path = config_path, loc_line = Some 3\<rparr>]\<rparr>"
proof -
  from multi_edit_sequential [of "[config_path \<mapsto> config_json]" config_path config_json
      config_edits config_json_edited] config_edited_text
  obtain lns where me: "multi_edit config_json config_edits = Some (config_json_edited, lns)"
    and info: "multi_edit_info [config_path \<mapsto> config_json] config_path config_edits =
        Some \<lparr>kind = ''edit'', title = ''Edit '' @ config_path,
              info_content = [Diff config_path (Some config_json) config_json_edited],
              locations = Some (map (\<lambda>ln. \<lparr>loc_path = config_path, loc_line = Some (int ln)\<rparr>) lns)\<rparr>"
    by auto
  from me config_lines have lns: "lns = [1, 3]"
    by simp
  have dec: "toolInfoFromToolUse config_tool_use [config_path \<mapsto> config_json] =
      multi_edit_info [config_path \<mapsto> config_json] config_path config_edits"
    by (simp add: toolInfoFromToolUse_def config_tool_use_def config_edits_def
        input_string_def)
  from dec info lns show ?thesis
    by (simp add: config_path_def)
qed

end
